theory Spec2Isabelle
  imports Main "HOL-Library.AList"
begin

section \<open>JavaScript strings and regular expressions\<close>

text \<open>
  A JavaScript string is a sequence of UTF-16 code units. The model keeps it as the list of
  the code units' numbers, so that \<open>@\<close> is \<open>+\<close> on strings and \<open>length\<close> is
  \<open>.length\<close>. \<open>lit\<close> embeds an ASCII literal of the source.
\<close>

type_synonym jstring = "nat list"

definition lit :: "string \<Rightarrow> jstring" where
  "lit s = map of_char s"

text \<open>JavaScript truthiness of a string: every string but the empty one.\<close>

definition truthy :: "jstring \<Rightarrow> bool" where
  "truthy s = (s \<noteq> [])"

text \<open>
  The regular expressions of the source, without flags: a character class is a list of
  inclusive code-unit ranges (\<open>Cls\<close>) or its complement (\<open>NCls\<close>); \<open>Bol\<close> and
  \<open>Eol\<close> are \<open>^\<close> and \<open>$\<close> under the \<open>m\<close> flag, \<open>Bos\<close> and \<open>Eos\<close> are
  \<open>^\<close> and \<open>$\<close> without it. \<open>r?\<close> is \<open>Alt r Eps\<close> and \<open>r+\<close> is
  \<open>Seq r (Star r)\<close>. Under the \<open>i\<close> flag a letter is the class of its two cases.
\<close>

datatype regex =
    Eps
  | Cls "(nat \<times> nat) list"
  | NCls "(nat \<times> nat) list"
  | Seq regex regex
  | Alt regex regex
  | Star regex
  | Bol
  | Eol
  | Bos
  | Eos

definition inClass :: "(nat \<times> nat) list \<Rightarrow> nat \<Rightarrow> bool" where
  "inClass rs c = list_ex (\<lambda>(lo, hi). lo \<le> c \<and> c \<le> hi) rs"

definition isLineTerminator :: "nat \<Rightarrow> bool" where
  "isLineTerminator c = (c = 10 \<or> c = 13 \<or> c = 8232 \<or> c = 8233)"

text \<open>
  \<open>ends r s i\<close> lists the positions at which a match of \<open>r\<close> that starts at position
  \<open>i\<close> of \<open>s\<close> can end, in the order in which the backtracking matcher of ECMAScript
  tries them: the left alternative before the right one, and one more iteration of a
  (greedy) star before stopping. The head of the list is the match that
  \<open>RegExp.prototype.exec\<close> reports at \<open>i\<close>. An iteration of a star that consumes nothing
  is rejected, as in ECMAScript, and \<open>length s - i\<close> iterations are therefore enough.
\<close>

primrec starEnds :: "(nat \<Rightarrow> nat list) \<Rightarrow> nat \<Rightarrow> nat \<Rightarrow> nat list" where
  "starEnds f 0 i = [i]"
| "starEnds f (Suc n) i =
     concat (map (\<lambda>e. if i < e then starEnds f n e else []) (f i)) @ [i]"

primrec ends :: "regex \<Rightarrow> jstring \<Rightarrow> nat \<Rightarrow> nat list" where
  "ends Eps s i = [i]"
| "ends (Cls rs) s i = (if i < length s \<and> inClass rs (s ! i) then [Suc i] else [])"
| "ends (NCls rs) s i = (if i < length s \<and> \<not> inClass rs (s ! i) then [Suc i] else [])"
| "ends (Seq r1 r2) s i = concat (map (ends r2 s) (ends r1 s i))"
| "ends (Alt r1 r2) s i = ends r1 s i @ ends r2 s i"
| "ends (Star r) s i = starEnds (ends r s) (length s - i) i"
| "ends Bol s i = (if i = 0 \<or> isLineTerminator (s ! (i - 1)) then [i] else [])"
| "ends Eol s i =
     (if i = length s \<or> (i < length s \<and> isLineTerminator (s ! i)) then [i] else [])"
| "ends Bos s i = (if i = 0 then [i] else [])"
| "ends Eos s i = (if i = length s then [i] else [])"

text \<open>
  \<open>str.replace(r, rep)\<close> for a regular expression with the \<open>g\<close> flag and a
  replacement without \<open>$\<close>, from position \<open>i\<close> on: the leftmost match is replaced
  and the search goes on behind it; after an empty match the search advances by one code
  unit.
\<close>

function replaceFrom :: "regex \<Rightarrow> jstring \<Rightarrow> jstring \<Rightarrow> nat \<Rightarrow> jstring" where
  "replaceFrom r rep s i =
     (if length s < i then []
      else (case ends r s i of
              [] \<Rightarrow> if i < length s then s ! i # replaceFrom r rep s (Suc i) else []
            | e # _ \<Rightarrow>
                if i < e then rep @ replaceFrom r rep s e
                else rep @ (if i < length s then s ! i # replaceFrom r rep s (Suc i) else [])))"
  by pat_completeness auto
termination
  by (relation "measure (\<lambda>(r, rep, s, i). Suc (length s) - i)") auto

definition replaceAll :: "regex \<Rightarrow> jstring \<Rightarrow> jstring \<Rightarrow> jstring" where
  "replaceAll r rep s = replaceFrom r rep s 0"

text \<open>\<open>r.test(s)\<close> for a regular expression without the \<open>g\<close> and \<open>y\<close> flags.\<close>

definition matchesAt :: "regex \<Rightarrow> jstring \<Rightarrow> nat \<Rightarrow> bool" where
  "matchesAt r s i = (ends r s i \<noteq> [])"

definition regexTest :: "regex \<Rightarrow> jstring \<Rightarrow> bool" where
  "regexTest r s = list_ex (matchesAt r s) [0..<Suc (length s)]"

definition chr :: "nat \<Rightarrow> regex" where
  "chr c = Cls [(c, c)]"

text \<open>
  The white space of \<open>String.prototype.trim\<close> (and of \<open>\s\<close>): the WhiteSpace and
  LineTerminator code points of ECMAScript.
\<close>

definition wsRanges :: "(nat \<times> nat) list" where
  "wsRanges = [(9, 13), (32, 32), (160, 160), (5760, 5760), (8192, 8202), (8232, 8233),
     (8239, 8239), (8287, 8287), (12288, 12288), (65279, 65279)]"

definition isWhiteSpace :: "nat \<Rightarrow> bool" where
  "isWhiteSpace c = inClass wsRanges c"

definition trim :: "jstring \<Rightarrow> jstring" where
  "trim s = rev (dropWhile isWhiteSpace (rev (dropWhile isWhiteSpace s)))"

subsection \<open>utils.ts: stripAnsi\<close>

text \<open>
  \<^verbatim>\<open>str.replace(/\x1B(?:[@-Z\\-_]|\[[0-?]*[ -/]*[@-~])/g, '')\<close>:
  ESC is 27, \<open>@-Z\<close> is 64 to 90, \<open>\-_\<close> is 92 to 95, \<open>[\<close> is 91, \<open>0-?\<close> is 48 to 63,
  space to \<open>/\<close> is 32 to 47 and \<open>@-~\<close> is 64 to 126.
\<close>

definition ansiRe :: regex where
  "ansiRe = Seq (chr 27)
     (Alt (Cls [(64, 90), (92, 95)])
          (Seq (chr 91)
               (Seq (Star (Cls [(48, 63)])) (Seq (Star (Cls [(32, 47)])) (Cls [(64, 126)])))))"

definition stripAnsi :: "jstring \<Rightarrow> jstring" where
  "stripAnsi str = replaceAll ansiRe [] str"

section \<open>daemon.ts: ToolDaemon\<close>

text \<open>
  The daemon is event driven: its methods are called by the session, and the pseudo
  terminal and the timers call back. Each is an event of the model, and a method returns
  the new daemon together with what it did to the outside (\<open>effect\<close>). Console output and
  the terminal resize listener are left out: they read and write nothing of the daemon.
  \<open>pty.spawn\<close> is taken to succeed. \<open>promptPattern\<close> is the \<open>test\<close> of the configured
  regular expression, one without the flags \<open>g\<close> and \<open>y\<close>, so that \<open>test\<close> keeps no
  state; the timeouts are kept as configured, and time itself is not modelled: a timer
  that is set may fire at any later moment.

  An optional property of the config object is absent, or present with the value
  \<open>undefined\<close>, or present with a value. The constructor's spread
  \<^verbatim>\<open>{ responseTimeout: 3000, startupTimeout: 60000, ...config }\<close> tells the first two
  apart: only an absent property leaves the default in place. For \<open>cwd\<close> and
  \<open>promptPattern\<close>, which have no default and are only tested for truthiness, both are
  \<open>None\<close>.
\<close>

datatype DaemonState = Starting | Ready | Busy | Interactive | Dead

datatype 'a property = Absent | Undefined | Value 'a

record DaemonConfig =
  name :: jstring
  displayName :: jstring
  command :: jstring
  args :: "jstring list"
  cwd :: "jstring option"
  promptPattern :: "(jstring \<Rightarrow> bool) option"
  responseTimeout :: "nat property"
  startupTimeout :: "nat property"

text \<open>
  The errors that the source throws, each with the names its message is built from: the
  first five are those of daemon.ts, the others those of session.ts, sdk-session.ts and
  the adapters.
\<close>

datatype error =
    AlreadyRunning jstring
  | StartupTimedOut jstring
  | NotRunning jstring
  | NotReady jstring DaemonState
  | UnknownTool jstring
  | NotAvailable jstring
  | NoResponseFound jstring
  | ExitedWithCode jstring "int option" jstring
  | SpawnError jstring

text \<open>
  One call of \<open>start()\<close> leaves a closure behind: the startup timer, the five-second timer
  that is set when no prompt pattern is configured, the promise that \<open>start()\<close> returned,
  and the pseudo terminal it spawned with its two handlers. The calls are numbered in the
  order they are made, and \<open>this.pty\<close> holds the number of the call that spawned it.
\<close>

record StartCall =
  startupTimer :: bool
  readyTimer :: bool
  settled :: bool
  ptyAlive :: bool

datatype effect =
    PtySpawn nat jstring "jstring list"
  | PtyWrite nat jstring
  | PtyKill nat
  | EmitData jstring
  | EmitExit int
  | StartResolved nat
  | StartRejected nat error
  | SendResolved jstring
  | SendRejected error
  | Thrown error
  | SetRawModeIfTTY bool
  | StdinResume
  | Display jstring
  | StdoutWrite jstring
  | StartOneResolved jstring
  | StartOneRejected jstring error

record ToolDaemon =
  pty :: "nat option"
  config :: DaemonConfig
  state :: DaemonState
  outputBuffer :: jstring
  responseBuffer :: jstring
  lastResponse :: jstring
  responseResolver :: bool
  responseTimeoutId :: bool
  interactiveStdinHandler :: bool
  stdinListeners :: nat
  dataListeners :: nat
  calls :: "StartCall list"

text \<open>
  \<open>responseResolver\<close> and \<open>responseTimeoutId\<close> say whether the field is non-null: the
  resolver is the one of the promise that the latest accepted \<open>send\<close> returned, and
  the timer is the only idle timer alive, since \<open>resetResponseTimeout\<close> clears the one it
  replaces. \<open>stdinListeners\<close> counts the handlers this daemon has on \<open>process.stdin\<close>, and
  \<open>dataListeners\<close> is \<open>listenerCount('data')\<close>.
\<close>

definition newToolDaemon :: "DaemonConfig \<Rightarrow> ToolDaemon" where
  "newToolDaemon cfg =
     \<lparr> pty = None,
       config = cfg\<lparr> responseTimeout :=
                      (case responseTimeout cfg of Absent \<Rightarrow> Value 3000 | t \<Rightarrow> t),
                    startupTimeout :=
                      (case startupTimeout cfg of Absent \<Rightarrow> Value 60000 | t \<Rightarrow> t) \<rparr>,
       state = Starting, outputBuffer = [], responseBuffer = [], lastResponse = [],
       responseResolver = False, responseTimeoutId = False,
       interactiveStdinHandler = False, stdinListeners = 0, dataListeners = 0, calls = [] \<rparr>"

definition getState :: "ToolDaemon \<Rightarrow> DaemonState" where
  "getState d = state d"

definition getLastResponse :: "ToolDaemon \<Rightarrow> jstring" where
  "getLastResponse d = lastResponse d"

definition isReady :: "ToolDaemon \<Rightarrow> bool" where
  "isReady d = (state d = Ready)"

definition start :: "ToolDaemon \<Rightarrow> error + ToolDaemon \<times> effect list" where
  "start d =
     (if pty d \<noteq> None then Inl (AlreadyRunning (displayName (config d)))
      else
        let k = length (calls d);
            c = \<lparr> startupTimer = True, readyTimer = Option.is_none (promptPattern (config d)),
                  settled = False, ptyAlive = True \<rparr>
        in Inr (d\<lparr> pty := Some k, calls := calls d @ [c] \<rparr>,
                [PtySpawn k (command (config d)) (args (config d))]))"

definition resetResponseTimeout :: "ToolDaemon \<Rightarrow> ToolDaemon" where
  "resetResponseTimeout d = d\<lparr> responseTimeoutId := True \<rparr>"

text \<open>
  Becoming ready, in the data handler and in the five-second timer of start call \<open>k\<close>:
  \<open>this.state = 'ready'; clearTimeout(startupTimeout); resolve()\<close>. Resolving a promise
  that is settled already does nothing.
\<close>

definition becomeReady :: "nat \<Rightarrow> ToolDaemon \<Rightarrow> ToolDaemon \<times> effect list" where
  "becomeReady k d =
     (let c = calls d ! k
      in (d\<lparr> state := Ready,
              calls := (calls d)[k := c\<lparr> startupTimer := False, settled := True \<rparr>] \<rparr>,
          if settled c then [] else [StartResolved k]))"

definition onData :: "nat \<Rightarrow> jstring \<Rightarrow> ToolDaemon \<Rightarrow> ToolDaemon \<times> effect list" where
  "onData k data d =
     (let d1 = d\<lparr> outputBuffer := outputBuffer d @ data \<rparr>;
          d2 = (if state d1 = Busy \<and> responseResolver d1
                then resetResponseTimeout (d1\<lparr> responseBuffer := responseBuffer d1 @ data \<rparr>)
                else d1)
      in if state d2 = Starting
         then (case promptPattern (config d2) of
                 Some p \<Rightarrow>
                   if p (stripAnsi (outputBuffer d2))
                   then (let (d3, fx) = becomeReady k d2 in (d3, EmitData data # fx))
                   else (d2, [EmitData data])
               | None \<Rightarrow> (d2, [EmitData data]))
         else (d2, [EmitData data]))"

definition onExit :: "nat \<Rightarrow> int \<Rightarrow> ToolDaemon \<Rightarrow> ToolDaemon \<times> effect list" where
  "onExit k exitCode d =
     (d\<lparr> state := Dead, calls := (calls d)[k := (calls d ! k)\<lparr> ptyAlive := False \<rparr>] \<rparr>,
      [EmitExit exitCode])"

definition onReadyTimer :: "nat \<Rightarrow> ToolDaemon \<Rightarrow> ToolDaemon \<times> effect list" where
  "onReadyTimer k d =
     (let d1 = d\<lparr> calls := (calls d)[k := (calls d ! k)\<lparr> readyTimer := False \<rparr>] \<rparr>
      in if state d1 = Starting then becomeReady k d1 else (d1, []))"

definition onStartupTimeout :: "nat \<Rightarrow> ToolDaemon \<Rightarrow> ToolDaemon \<times> effect list" where
  "onStartupTimeout k d =
     (let c = calls d ! k
      in (d\<lparr> calls := (calls d)[k := c\<lparr> startupTimer := False, settled := True \<rparr>] \<rparr>,
          if settled c then [] else [StartRejected k (StartupTimedOut (displayName (config d)))]))"

definition completeResponse :: "ToolDaemon \<Rightarrow> ToolDaemon \<times> effect list" where
  "completeResponse d =
     (let d1 = d\<lparr> responseTimeoutId := False \<rparr>
      in if responseResolver d1
         then (let response = responseBuffer d1
               in (d1\<lparr> lastResponse := trim (stripAnsi response),
                       responseResolver := False,
                       responseBuffer := [],
                       state := Ready \<rparr>,
                   [SendResolved response]))
         else (d1, []))"

definition send :: "ToolDaemon \<Rightarrow> jstring \<Rightarrow> error + ToolDaemon \<times> effect list" where
  "send d cmd =
     (case pty d of
        None \<Rightarrow> Inl (NotRunning (displayName (config d)))
      | Some k \<Rightarrow>
          if state d \<noteq> Ready then Inl (NotReady (displayName (config d)) (state d))
          else Inr (resetResponseTimeout
                      (d\<lparr> state := Busy, responseBuffer := [], responseResolver := True \<rparr>),
                    [PtyWrite k (cmd @ lit ''\<newline>'')]))"

definition enterInteractiveMode :: "ToolDaemon \<Rightarrow> error + ToolDaemon \<times> effect list" where
  "enterInteractiveMode d =
     (if pty d = None then Inl (NotRunning (displayName (config d)))
      else Inr (d\<lparr> state := Interactive, interactiveStdinHandler := True,
                   stdinListeners := Suc (stdinListeners d) \<rparr>,
                [SetRawModeIfTTY True, StdinResume]))"

definition exitInteractiveMode :: "ToolDaemon \<Rightarrow> ToolDaemon \<times> effect list" where
  "exitInteractiveMode d =
     (let d1 = (if interactiveStdinHandler d
                then d\<lparr> interactiveStdinHandler := False,
                        stdinListeners := stdinListeners d - 1 \<rparr>
                else d)
      in (d1\<lparr> state := Ready \<rparr>, [SetRawModeIfTTY False]))"

definition writeData :: "ToolDaemon \<Rightarrow> jstring \<Rightarrow> ToolDaemon \<times> effect list" where
  "writeData d data = (d, case pty d of None \<Rightarrow> [] | Some k \<Rightarrow> [PtyWrite k data])"

definition stop :: "ToolDaemon \<Rightarrow> ToolDaemon \<times> effect list" where
  "stop d =
     (let (d1, fx1) = (if interactiveStdinHandler d then exitInteractiveMode d else (d, []));
          (d2, fx2) = (case pty d1 of None \<Rightarrow> (d1, [])
                       | Some k \<Rightarrow> (d1\<lparr> pty := None \<rparr>, [PtyKill k]))
      in (d2\<lparr> state := Dead \<rparr>, fx1 @ fx2))"

text \<open>The handlers that \<open>enterInteractiveMode\<close> has put on \<open>process.stdin\<close>.\<close>

definition onStdinData :: "jstring \<Rightarrow> ToolDaemon \<Rightarrow> ToolDaemon \<times> effect list" where
  "onStdinData data d =
     (d, case pty d of None \<Rightarrow> [] | Some k \<Rightarrow> replicate (stdinListeners d) (PtyWrite k data))"

subsection \<open>The daemon as a transition system\<close>

datatype event =
    CallStart
  | CallSend jstring
  | CallEnterInteractiveMode
  | CallExitInteractiveMode
  | CallWrite jstring
  | CallStop
  | PtyData nat jstring
  | PtyExit nat int
  | StartupTimeout nat
  | ReadyTimer nat
  | ResponseTimeout
  | StdinData jstring

text \<open>
  \<open>step d ev\<close> is \<open>None\<close> when \<open>ev\<close> cannot happen in \<open>d\<close>: a timer that is not set does
  not fire, and a pseudo terminal that has exited (or was never spawned) is silent. A
  method that throws leaves the daemon as it was; for the asynchronous \<open>start\<close> and
  \<open>send\<close> the error rejects the promise they return.
\<close>

definition step :: "ToolDaemon \<Rightarrow> event \<Rightarrow> (ToolDaemon \<times> effect list) option" where
  "step d ev =
     (case ev of
        CallStart \<Rightarrow>
          (case start d of
             Inl e \<Rightarrow> Some (d, [StartRejected (length (calls d)) e])
           | Inr r \<Rightarrow> Some r)
      | CallSend cmd \<Rightarrow>
          (case send d cmd of Inl e \<Rightarrow> Some (d, [SendRejected e]) | Inr r \<Rightarrow> Some r)
      | CallEnterInteractiveMode \<Rightarrow>
          (case enterInteractiveMode d of Inl e \<Rightarrow> Some (d, [Thrown e]) | Inr r \<Rightarrow> Some r)
      | CallExitInteractiveMode \<Rightarrow> Some (exitInteractiveMode d)
      | CallWrite data \<Rightarrow> Some (writeData d data)
      | CallStop \<Rightarrow> Some (stop d)
      | PtyData k data \<Rightarrow>
          (if k < length (calls d) \<and> ptyAlive (calls d ! k) then Some (onData k data d)
           else None)
      | PtyExit k exitCode \<Rightarrow>
          (if k < length (calls d) \<and> ptyAlive (calls d ! k) then Some (onExit k exitCode d)
           else None)
      | StartupTimeout k \<Rightarrow>
          (if k < length (calls d) \<and> startupTimer (calls d ! k)
           then Some (onStartupTimeout k d) else None)
      | ReadyTimer k \<Rightarrow>
          (if k < length (calls d) \<and> readyTimer (calls d ! k) then Some (onReadyTimer k d)
           else None)
      | ResponseTimeout \<Rightarrow> (if responseTimeoutId d then Some (completeResponse d) else None)
      | StdinData data \<Rightarrow> (if 0 < stdinListeners d then Some (onStdinData data d) else None))"

text \<open>A run of events from a daemon, with what it did to the outside, in order.\<close>

fun run :: "ToolDaemon \<Rightarrow> event list \<Rightarrow> (ToolDaemon \<times> effect list) option" where
  "run d [] = Some (d, [])"
| "run d (ev # evs) =
     (case step d ev of
        None \<Rightarrow> None
      | Some (d1, fx1) \<Rightarrow>
          (case run d1 evs of None \<Rightarrow> None | Some (d2, fx2) \<Rightarrow> Some (d2, fx1 @ fx2)))"

definition reachable :: "DaemonConfig \<Rightarrow> ToolDaemon \<Rightarrow> bool" where
  "reachable cfg d = (\<exists>evs fx. run (newToolDaemon cfg) evs = Some (d, fx))"

text \<open>The \<open>echo\<close> tool of the end-to-end scenario, with no prompt pattern.\<close>

definition echoConfig :: DaemonConfig where
  "echoConfig =
     \<lparr> name = lit ''echo'', displayName = lit ''Echo'', command = lit ''cat'', args = [],
       cwd = None, promptPattern = None, responseTimeout = Absent,
       startupTimeout = Absent \<rparr>"

section \<open>daemon.ts: DaemonManager\<close>

text \<open>
  \<open>daemons\<close> is the \<open>Map\<close> of the source, in insertion order; \<open>Map.set\<close> is
  \<open>AList.update\<close>. \<open>awaiting\<close> holds the calls of \<open>startOne\<close> that are suspended at
  their \<open>await\<close> on a daemon of the map: the tool name and the number of the
  \<open>start()\<close> call they wait for.

  A daemon that \<open>register\<close> overwrites in the map, or that \<open>stopAll\<close> clears from it,
  is out of reach of \<open>get\<close>, but the object lives on: its timers and its pseudo terminal
  still call back, its \<open>'data'\<close> listener still compares \<open>activeDaemon\<close> with its name,
  and a \<open>startOne\<close> suspended on it still goes on when its promise settles. \<open>replaced\<close>
  holds these daemons in the order they left the map, each with the name it was
  registered under and the numbers of its \<open>start()\<close> calls that a \<open>startOne\<close> is
  suspended on.

  \<open>startAll\<close>, which the properties below do not involve, is left out.
\<close>

record DaemonManager =
  daemons :: "(jstring \<times> ToolDaemon) list"
  activeDaemon :: "jstring option"
  displayHandler :: bool
  awaiting :: "(jstring \<times> nat) list"
  replaced :: "(jstring \<times> ToolDaemon \<times> nat list) list"

datatype startOneOutcome = StartOneReturned | StartOneThrew error | StartOnePending nat

definition newDaemonManager :: DaemonManager where
  "newDaemonManager =
     \<lparr> daemons = [], activeDaemon = None, displayHandler = False, awaiting = [],
       replaced = [] \<rparr>"

text \<open>
  \<open>retire n d m\<close> moves the daemon \<open>d\<close>, which leaves the map under the name \<open>n\<close>,
  to \<open>replaced\<close>, together with the suspended calls of \<open>startOne\<close> that wait for it.
\<close>

definition suspendedOn :: "DaemonManager \<Rightarrow> jstring \<Rightarrow> nat list" where
  "suspendedOn m n = map snd (filter (\<lambda>(n', k). n' = n) (awaiting m))"

definition retire :: "jstring \<Rightarrow> ToolDaemon \<Rightarrow> DaemonManager \<Rightarrow> DaemonManager" where
  "retire n d m =
     m\<lparr> awaiting := filter (\<lambda>(n', k). n' \<noteq> n) (awaiting m),
        replaced := replaced m @ [(n, d, suspendedOn m n)] \<rparr>"

definition register :: "DaemonManager \<Rightarrow> DaemonConfig \<Rightarrow> DaemonManager" where
  "register m cfg =
     (let m1 = (case map_of (daemons m) (name cfg) of
                  None \<Rightarrow> m
                | Some old \<Rightarrow> retire (name cfg) old m)
      in m1\<lparr> daemons := AList.update (name cfg) (newToolDaemon cfg) (daemons m1) \<rparr>)"

definition get :: "DaemonManager \<Rightarrow> jstring \<Rightarrow> ToolDaemon option" where
  "get m n = map_of (daemons m) n"

definition getActive :: "DaemonManager \<Rightarrow> ToolDaemon option" where
  "getActive m =
     (case activeDaemon m of
        None \<Rightarrow> None
      | Some n \<Rightarrow> if truthy n then map_of (daemons m) n else None)"

definition putDaemon :: "jstring \<Rightarrow> ToolDaemon \<Rightarrow> DaemonManager \<Rightarrow> DaemonManager" where
  "putDaemon n d m = m\<lparr> daemons := AList.update n d (daemons m) \<rparr>"

definition setupAndStartDaemon ::
  "ToolDaemon \<Rightarrow> ToolDaemon \<times> (error + effect list)" where
  "setupAndStartDaemon d =
     (let d1 = (if dataListeners d = 0 then d\<lparr> dataListeners := 1 \<rparr> else d)
      in case start d1 of Inl e \<Rightarrow> (d1, Inl e) | Inr (d2, fx) \<Rightarrow> (d2, Inr fx))"

text \<open>
  \<open>startOne\<close> up to its \<open>await\<close>. What follows the \<open>await\<close>
  (\<open>this.activeDaemon = name\<close>) runs when the promise of \<open>start()\<close> resolves, in
  \<open>deliver\<close> below.
\<close>

definition startOne ::
  "DaemonManager \<Rightarrow> jstring \<Rightarrow> DaemonManager \<times> effect list \<times> startOneOutcome" where
  "startOne m n =
     (case get m n of
        None \<Rightarrow> (m, [], StartOneThrew (UnknownTool n))
      | Some d \<Rightarrow>
          if getState d \<noteq> Starting \<and> getState d \<noteq> Dead then (m, [], StartOneReturned)
          else (case setupAndStartDaemon d of
                  (d1, Inl e) \<Rightarrow> (putDaemon n d1 m, [], StartOneThrew e)
                | (d1, Inr fx) \<Rightarrow>
                    ((putDaemon n d1 m)\<lparr> awaiting := awaiting m @ [(n, length (calls d))] \<rparr>,
                     fx, StartOnePending (length (calls d)))))"

definition setActive ::
  "DaemonManager \<Rightarrow> jstring \<Rightarrow> error + DaemonManager \<times> effect list" where
  "setActive m n =
     (if map_of (daemons m) n = None then Inl (UnknownTool n)
      else
        let (m1, fx) =
              (case getActive m of
                 None \<Rightarrow> (m, [])
               | Some previousDaemon \<Rightarrow>
                   if getState previousDaemon = Interactive
                   then (let (p, fx) = exitInteractiveMode previousDaemon
                         in (putDaemon (the (activeDaemon m)) p m, fx))
                   else (m, []))
        in Inr (m1\<lparr> activeDaemon := Some n \<rparr>, fx))"

definition setDisplayHandler :: "DaemonManager \<Rightarrow> DaemonManager" where
  "setDisplayHandler m = m\<lparr> displayHandler := True \<rparr>"

definition getNames :: "DaemonManager \<Rightarrow> jstring list" where
  "getNames m = map fst (daemons m)"

definition stopAll :: "DaemonManager \<Rightarrow> DaemonManager \<times> effect list" where
  "stopAll m =
     ((fold (\<lambda>(n, d). retire n (fst (stop d))) (daemons m) m)
        \<lparr> daemons := [], activeDaemon := None \<rparr>,
      concat (map (\<lambda>(n, d). snd (stop d)) (daemons m)))"

text \<open>
  What the manager does with the effects of daemon \<open>n\<close>: the \<open>'data'\<close> listener of
  \<open>setupAndStartDaemon\<close> shows the data when \<open>n\<close> is the active daemon, and a suspended
  \<open>startOne\<close> goes on when the promise of its \<open>start()\<close> call settles.
\<close>

fun deliver :: "DaemonManager \<Rightarrow> jstring \<Rightarrow> effect list \<Rightarrow> DaemonManager \<times> effect list" where
  "deliver m n [] = (m, [])"
| "deliver m n (EmitData data # fx) =
     (let shown =
            (if (case get m n of None \<Rightarrow> False | Some d \<Rightarrow> 0 < dataListeners d)
                \<and> activeDaemon m = Some n
             then [if displayHandler m then Display data else StdoutWrite data]
             else []);
          (m1, out) = deliver m n fx
      in (m1, EmitData data # shown @ out))"
| "deliver m n (StartResolved k # fx) =
     (if (n, k) \<in> set (awaiting m)
      then (let (m1, out) =
                  deliver (m\<lparr> activeDaemon := Some n,
                             awaiting := removeAll (n, k) (awaiting m) \<rparr>) n fx
            in (m1, StartResolved k # StartOneResolved n # out))
      else (let (m1, out) = deliver m n fx in (m1, StartResolved k # out)))"
| "deliver m n (StartRejected k e # fx) =
     (if (n, k) \<in> set (awaiting m)
      then (let (m1, out) = deliver (m\<lparr> awaiting := removeAll (n, k) (awaiting m) \<rparr>) n fx
            in (m1, StartRejected k e # StartOneRejected n e # out))
      else (let (m1, out) = deliver m n fx in (m1, StartRejected k e # out)))"
| "deliver m n (x # fx) = (let (m1, out) = deliver m n fx in (m1, x # out))"

text \<open>An event of the daemon registered as \<open>n\<close>, seen from the manager.\<close>

definition daemonEvent ::
  "DaemonManager \<Rightarrow> jstring \<Rightarrow> event \<Rightarrow> (DaemonManager \<times> effect list) option" where
  "daemonEvent m n ev =
     (case get m n of
        None \<Rightarrow> None
      | Some d \<Rightarrow>
          (case step d ev of
             None \<Rightarrow> None
           | Some (d1, fx) \<Rightarrow> Some (deliver (putDaemon n d1 m) n fx)))"

text \<open>
  The same for the daemon at place \<open>i\<close> of \<open>replaced\<close>: what its \<open>'data'\<close> listener
  and the calls of \<open>startOne\<close> suspended on it do with its effects, and an event of it.
\<close>

fun deliverReplaced ::
  "DaemonManager \<Rightarrow> nat \<Rightarrow> effect list \<Rightarrow> DaemonManager \<times> effect list" where
  "deliverReplaced m i [] = (m, [])"
| "deliverReplaced m i (EmitData data # fx) =
     (let (n, d, ks) = replaced m ! i;
          shown =
            (if 0 < dataListeners d \<and> activeDaemon m = Some n
             then [if displayHandler m then Display data else StdoutWrite data]
             else []);
          (m1, out) = deliverReplaced m i fx
      in (m1, EmitData data # shown @ out))"
| "deliverReplaced m i (StartResolved k # fx) =
     (let (n, d, ks) = replaced m ! i
      in if k \<in> set ks
         then (let (m1, out) =
                     deliverReplaced
                       (m\<lparr> activeDaemon := Some n,
                           replaced := (replaced m)[i := (n, d, removeAll k ks)] \<rparr>) i fx
               in (m1, StartResolved k # StartOneResolved n # out))
         else (let (m1, out) = deliverReplaced m i fx in (m1, StartResolved k # out)))"
| "deliverReplaced m i (StartRejected k e # fx) =
     (let (n, d, ks) = replaced m ! i
      in if k \<in> set ks
         then (let (m1, out) =
                     deliverReplaced
                       (m\<lparr> replaced := (replaced m)[i := (n, d, removeAll k ks)] \<rparr>) i fx
               in (m1, StartRejected k e # StartOneRejected n e # out))
         else (let (m1, out) = deliverReplaced m i fx in (m1, StartRejected k e # out)))"
| "deliverReplaced m i (x # fx) =
     (let (m1, out) = deliverReplaced m i fx in (m1, x # out))"

definition replacedEvent ::
  "DaemonManager \<Rightarrow> nat \<Rightarrow> event \<Rightarrow> (DaemonManager \<times> effect list) option" where
  "replacedEvent m i ev =
     (if i < length (replaced m)
      then (let (n, d, ks) = replaced m ! i
            in case step d ev of
                 None \<Rightarrow> None
               | Some (d1, fx) \<Rightarrow>
                   Some (deliverReplaced (m\<lparr> replaced := (replaced m)[i := (n, d1, ks)] \<rparr>) i fx))
      else None)"

definition interactiveNames :: "DaemonManager \<Rightarrow> jstring list" where
  "interactiveNames m = map fst (filter (\<lambda>(n, d). getState d = Interactive) (daemons m))"

text \<open>
  What happens to a manager: a call of one of its methods, or an event of one of its
  daemons (a call of a daemon's method by the holder of \<open>get(name)\<close>, or a callback),
  in the map or replaced.
\<close>

datatype managerOp =
    Register DaemonConfig
  | StartOne jstring
  | SetActive jstring
  | SetDisplayHandler
  | StopAll
  | OnDaemon jstring event
  | OnReplaced nat event

definition managerStep :: "DaemonManager \<Rightarrow> managerOp \<Rightarrow> (DaemonManager \<times> effect list) option" where
  "managerStep m op =
     (case op of
        Register cfg \<Rightarrow> Some (register m cfg, [])
      | StartOne n \<Rightarrow>
          (case startOne m n of
             (m1, fx, StartOneReturned) \<Rightarrow> Some (m1, fx @ [StartOneResolved n])
           | (m1, fx, StartOneThrew e) \<Rightarrow> Some (m1, fx @ [StartOneRejected n e])
           | (m1, fx, StartOnePending k) \<Rightarrow> Some (m1, fx))
      | SetActive n \<Rightarrow>
          (case setActive m n of Inl e \<Rightarrow> Some (m, [Thrown e]) | Inr r \<Rightarrow> Some r)
      | SetDisplayHandler \<Rightarrow> Some (setDisplayHandler m, [])
      | StopAll \<Rightarrow> Some (stopAll m)
      | OnDaemon n ev \<Rightarrow> daemonEvent m n ev
      | OnReplaced i ev \<Rightarrow> replacedEvent m i ev)"

fun managerRun :: "DaemonManager \<Rightarrow> managerOp list \<Rightarrow> (DaemonManager \<times> effect list) option" where
  "managerRun m [] = Some (m, [])"
| "managerRun m (op # ops) =
     (case managerStep m op of
        None \<Rightarrow> None
      | Some (m1, fx1) \<Rightarrow>
          (case managerRun m1 ops of None \<Rightarrow> None | Some (m2, fx2) \<Rightarrow> Some (m2, fx1 @ fx2)))"

section \<open>session.ts: SessionManager\<close>

datatype Role = User | Assistant

text \<open>
  The \<open>Message\<close> of sdk-session.ts has the first three fields; the one of session.ts
  has a timestamp too, which the caller's clock supplies.
\<close>

record Message =
  tool :: jstring
  role :: Role
  content :: jstring

record StampedMessage = Message +
  timestamp :: nat

text \<open>
  What the session uses of a \<open>ToolAdapter\<close>: its two names and the answer of
  \<open>isAvailable()\<close>. The registry is a lookup by name. What \<open>tool.send\<close> does is the
  tool's business: its result is given to \<open>SessionManager_send\<close> as \<open>outcome\<close>.
\<close>

record ToolAdapter =
  adapterName :: jstring
  adapterDisplayName :: jstring
  isAvailable :: bool

record SessionManager =
  messages :: "StampedMessage list"
  defaultTool :: jstring
  registry :: "jstring \<Rightarrow> ToolAdapter option"

text \<open>\<open>a || b\<close> for an optional string \<open>a\<close>.\<close>

definition orElse :: "jstring option \<Rightarrow> jstring \<Rightarrow> jstring" where
  "orElse a b = (case a of None \<Rightarrow> b | Some x \<Rightarrow> if truthy x then x else b)"

definition SessionManager_getLastResponse ::
  "SessionManager \<Rightarrow> jstring option \<Rightarrow> StampedMessage option" where
  "SessionManager_getLastResponse sm toolName =
     (let filtered =
            (if (case toolName of None \<Rightarrow> False | Some t \<Rightarrow> truthy t)
             then filter (\<lambda>m. tool m = the toolName \<and> role m = Assistant) (messages sm)
             else filter (\<lambda>m. role m = Assistant) (messages sm))
      in if filtered = [] then None else Some (last filtered))"

definition addUserMessage ::
  "SessionManager \<Rightarrow> jstring \<Rightarrow> jstring \<Rightarrow> nat \<Rightarrow> SessionManager" where
  "addUserMessage sm c t now =
     sm\<lparr> messages := messages sm @ [\<lparr> tool = t, role = User, content = c, timestamp = now \<rparr>] \<rparr>"

definition addAssistantMessage ::
  "SessionManager \<Rightarrow> jstring \<Rightarrow> jstring \<Rightarrow> nat \<Rightarrow> SessionManager" where
  "addAssistantMessage sm c t now =
     sm\<lparr> messages := messages sm @ [\<lparr> tool = t, role = Assistant, content = c, timestamp = now \<rparr>] \<rparr>"

text \<open>
  \<open>send\<close> returns the session, the prompts it handed to a tool (with the tool's name)
  and its result. \<open>now1\<close> and \<open>now2\<close> are the times of the two \<open>new Date()\<close>.
\<close>

definition SessionManager_send ::
  "SessionManager \<Rightarrow> jstring \<Rightarrow> jstring option \<Rightarrow> nat \<Rightarrow> nat \<Rightarrow> error + jstring
     \<Rightarrow> SessionManager \<times> (jstring \<times> jstring) list \<times> (error + jstring)" where
  "SessionManager_send sm prompt toolName now1 now2 outcome =
     (case registry sm (orElse toolName (defaultTool sm)) of
        None \<Rightarrow> (sm, [], Inl (UnknownTool (orElse toolName (defaultTool sm))))
      | Some t \<Rightarrow>
          if \<not> isAvailable t then (sm, [], Inl (NotAvailable (adapterDisplayName t)))
          else
            let sm1 = addUserMessage sm prompt (adapterName t) now1
            in (case outcome of
                  Inr response \<Rightarrow>
                    (addAssistantMessage sm1 response (adapterName t) now2,
                     [(adapterName t, prompt)], Inr response)
                | Inl e \<Rightarrow>
                    (sm1\<lparr> messages := butlast (messages sm1) \<rparr>,
                     [(adapterName t, prompt)], Inl e)))"

text \<open>\<open>prefixOpt\<close> is \<open>options?.prefix\<close>.\<close>

definition forward ::
  "SessionManager \<Rightarrow> jstring \<Rightarrow> jstring \<Rightarrow> jstring option \<Rightarrow> jstring option \<Rightarrow> nat \<Rightarrow> nat
     \<Rightarrow> error + jstring \<Rightarrow> SessionManager \<times> (jstring \<times> jstring) list \<times> (error + jstring)" where
  "forward sm fromTool toTool additionalPrompt prefixOpt now1 now2 outcome =
     (case SessionManager_getLastResponse sm (Some fromTool) of
        None \<Rightarrow> (sm, [], Inl (NoResponseFound fromTool))
      | Some lastMsg \<Rightarrow>
          (case registry sm toTool of
             None \<Rightarrow> (sm, [], Inl (UnknownTool toTool))
           | Some toAdapter \<Rightarrow>
               let prefix = orElse prefixOpt
                     (lit ''Another AI assistant ('' @
                      orElse (map_option adapterDisplayName (registry sm fromTool)) fromTool @
                      lit '') proposed the following. Please review and provide feedback:\<newline>\<newline>---\<newline>'');
                   suffix = (case additionalPrompt of
                               None \<Rightarrow> []
                             | Some a \<Rightarrow>
                                 if truthy a
                                 then lit ''\<newline>---\<newline>\<newline>Additional context: '' @ a
                                 else []);
                   forwardPrompt = prefix @ content lastMsg @ suffix
               in SessionManager_send sm forwardPrompt (Some toTool) now1 now2 outcome))"

section \<open>sdk-session.ts: SDKSession\<close>

text \<open>
  Of the session, the fields that \<open>sendToTool\<close> and \<open>handleForward\<close> read or write.
  A tool is run as a child process; how it ends is the \<open>ProcOutcome\<close>: the \<open>'close'\<close>
  event with the exit code (\<open>None\<close> for \<open>null\<close>) and what it wrote on stdout and
  stderr, or the \<open>'error'\<close> event.
\<close>

record SDKSession =
  activeTool :: jstring
  conversationHistory :: "Message list"
  claudeHasSession :: bool
  geminiHasSession :: bool

datatype ProcOutcome = Closed "int option" jstring jstring | SpawnFailed jstring

text \<open>Both return the arguments of the \<open>spawn\<close> and how the promise settles.\<close>

definition sendToClaude ::
  "SDKSession \<Rightarrow> jstring \<Rightarrow> ProcOutcome \<Rightarrow> jstring list \<times> (error + jstring \<times> SDKSession)" where
  "sendToClaude s message out =
     ([lit ''-p''] @ (if claudeHasSession s then [lit ''--continue''] else []) @ [message],
      case out of
        Closed code stdout stderr \<Rightarrow>
          if code \<noteq> Some 0
          then Inl (ExitedWithCode (lit ''Claude'') code (if truthy stderr then stderr else stdout))
          else Inr (trim (stripAnsi stdout), s\<lparr> claudeHasSession := True \<rparr>)
      | SpawnFailed e \<Rightarrow> Inl (SpawnError e))"

definition sendToGemini ::
  "SDKSession \<Rightarrow> jstring \<Rightarrow> ProcOutcome \<Rightarrow> jstring list \<times> (error + jstring \<times> SDKSession)" where
  "sendToGemini s message out =
     ((if geminiHasSession s then [lit ''--resume'', lit ''latest''] else []) @ [message],
      case out of
        Closed code stdout stderr \<Rightarrow>
          if code \<noteq> Some 0
          then Inl (ExitedWithCode (lit ''Gemini'') code (if truthy stderr then stderr else stdout))
          else Inr (trim (stripAnsi stdout), s\<lparr> geminiHasSession := True \<rparr>)
      | SpawnFailed e \<Rightarrow> Inl (SpawnError e))"

text \<open>
  \<open>sendToTool\<close> returns the session and the command it spawned with its arguments; an
  error of the tool is printed and goes no further.
\<close>

definition sendToTool ::
  "SDKSession \<Rightarrow> jstring \<Rightarrow> ProcOutcome \<Rightarrow> SDKSession \<times> jstring \<times> jstring list" where
  "sendToTool s message out =
     (let s1 = s\<lparr> conversationHistory := conversationHistory s @
                    [\<lparr> tool = activeTool s, role = User, content = message \<rparr>] \<rparr>;
          cmd = (if activeTool s1 = lit ''claude'' then lit ''claude'' else lit ''gemini'');
          (spawnArgs, res) = (if activeTool s1 = lit ''claude'' then sendToClaude s1 message out
                              else sendToGemini s1 message out)
      in case res of
           Inr (response, s2) \<Rightarrow>
             (s2\<lparr> conversationHistory := conversationHistory s2 @
                    [\<lparr> tool = activeTool s2, role = Assistant, content = response \<rparr>] \<rparr>,
              cmd, spawnArgs)
         | Inl e \<Rightarrow>
             (s1\<lparr> conversationHistory := butlast (conversationHistory s1) \<rparr>, cmd, spawnArgs))"

definition handleForward ::
  "SDKSession \<Rightarrow> jstring \<Rightarrow> ProcOutcome \<Rightarrow> SDKSession \<times> (jstring \<times> jstring list) option" where
  "handleForward s additionalMessage out =
     (case find (\<lambda>m. role m = Assistant) (rev (conversationHistory s)) of
        None \<Rightarrow> (s, None)
      | Some lastMsg \<Rightarrow>
          let sourceTool = tool lastMsg;
              targetTool = (if sourceTool = lit ''claude'' then lit ''gemini'' else lit ''claude'');
              s1 = s\<lparr> activeTool := targetTool \<rparr>;
              sourceDisplayName =
                (if sourceTool = lit ''claude'' then lit ''Claude Code'' else lit ''Gemini CLI'');
              forwardPrompt =
                lit ''Another AI assistant ('' @ sourceDisplayName @
                lit '') provided this response. Please review and share your thoughts:\<newline>\<newline>---\<newline>'' @
                content lastMsg @ lit ''\<newline>---'';
              forwardPrompt1 =
                (if truthy additionalMessage
                 then forwardPrompt @ lit ''\<newline>\<newline>Additional context: '' @ additionalMessage
                 else forwardPrompt);
              (s2, spawned) = sendToTool s1 forwardPrompt1 out
          in (s2, Some spawned))"

section \<open>adapters/gemini.ts: cleanResponse\<close>

text \<open>
  The pieces the regular expressions of \<open>cleanResponse\<close> are written with:
  \<open>chars\<close> is a literal text, \<open>charsCI\<close> the same under the \<open>i\<close> flag,
  \<open>whiteSpace\<close> is \<open>\s\<close>, \<open>digit\<close> is \<open>\d\<close>, \<open>wordChar\<close> is \<open>\w\<close> and
  \<open>anyChar\<close> is the dot.
\<close>

fun seqs :: "regex list \<Rightarrow> regex" where
  "seqs [] = Eps"
| "seqs [r] = r"
| "seqs (r # rs) = Seq r (seqs rs)"

definition chars :: "string \<Rightarrow> regex" where
  "chars s = seqs (map (\<lambda>c. chr (of_char c)) s)"

definition chrCI :: "nat \<Rightarrow> regex" where
  "chrCI c =
     (if 97 \<le> c \<and> c \<le> 122 then Cls [(c, c), (c - 32, c - 32)]
      else if 65 \<le> c \<and> c \<le> 90 then Cls [(c, c), (c + 32, c + 32)]
      else chr c)"

definition charsCI :: "string \<Rightarrow> regex" where
  "charsCI s = seqs (map (\<lambda>c. chrCI (of_char c)) s)"

definition optional :: "regex \<Rightarrow> regex" where
  "optional r = Alt r Eps"

definition oneOrMore :: "regex \<Rightarrow> regex" where
  "oneOrMore r = Seq r (Star r)"

definition whiteSpace :: regex where
  "whiteSpace = Cls wsRanges"

definition digit :: regex where
  "digit = Cls [(48, 57)]"

definition wordChar :: regex where
  "wordChar = Cls [(48, 57), (65, 90), (95, 95), (97, 122)]"

definition anyChar :: regex where
  "anyChar = NCls [(10, 10), (13, 13), (8232, 8233)]"

text \<open>
  The spinner frames are U+280B, U+2819, U+2839, U+2838, U+283C, U+2834, U+2826, U+2827,
  U+2807 and U+280F, and the box drawing characters are those of the source, in its order.
\<close>

definition spinnerFrames :: "(nat \<times> nat) list" where
  "spinnerFrames = map (\<lambda>c. (c, c))
     [10251, 10265, 10297, 10296, 10300, 10292, 10278, 10279, 10247, 10255]"

definition boxDrawing :: "(nat \<times> nat) list" where
  "boxDrawing = map (\<lambda>c. (c, c))
     [9581, 9582, 9584, 9583, 9474, 9472, 9484, 9488, 9492, 9496, 9500, 9508, 9516, 9524,
      9532, 9553, 9552, 9556, 9559, 9562, 9565, 9568, 9571, 9574, 9577, 9580]"

text \<open>
  The regular expressions that \<open>cleanResponse\<close> replaces by the empty string, in the
  order of the source: the four kinds of escape sequences, the credentials line, the
  spinner frames, the box drawing characters, the ten lines of the Gemini interface, the
  five thinking indicators, the tool status lines, the prompt character and the
  \<open>generating more\<close> marker. In the list below, 63 is \<open>?\<close>, 42 is \<open>*\<close>, 41 is
  \<open>)\<close>, 62 is \<open>>\<close>, 34 is the double quote, 46 is the full stop, 115 is \<open>s\<close>,
  8756 is U+2234, 10045 is U+273D, and 10003 and 10007 are the check mark and the cross.

  \<^enum> \<^verbatim>\<open>/\x1b\[[0-9;]*[a-zA-Z]/g\<close>
  \<^enum> \<^verbatim>\<open>/\x1b\[\??\d+[hl]/g\<close>
  \<^enum> \<^verbatim>\<open>/\x1b\[\d* ?q/g\<close>
  \<^enum> \<^verbatim>\<open>/\x1b\][^\x07]*\x07/g\<close>
  \<^enum> \<^verbatim>\<open>/Loaded cached credentials\.?\s*/g\<close>
  \<^enum> the class of the ten spinner frames, with the flag \<open>g\<close>
  \<^enum> the class of the 26 box drawing characters, with the flag \<open>g\<close>
  \<^enum> \<^verbatim>\<open>/^\s*Using:.*MCP servers?\s*$/gm\<close>
  \<^enum> \<^verbatim>\<open>/^\s*~\/.*\(main\*?\).*$/gm\<close>
  \<^enum> \<^verbatim>\<open>/^\s*~\/[^\n]*$/gm\<close>
  \<^enum> \<^verbatim>\<open>/^\s*no sandbox.*$/gim\<close>
  \<^enum> \<^verbatim>\<open>/^\s*auto\s*$/gm\<close>
  \<^enum> \<^verbatim>\<open>/^\s*Reading.*\(esc to cancel.*\)\s*$/gm\<close>
  \<^enum> \<^verbatim>\<open>/^\s*Type your message or @path.*$/gm\<close>
  \<^enum> \<^verbatim>\<open>/^\s*>\s*Type your message.*$/gm\<close>
  \<^enum> \<^verbatim>\<open>/^\s*\?\s*for shortcuts\s*$/gm\<close>
  \<^enum> \<^verbatim>\<open>/^\s*Try ".*"\s*$/gm\<close>
  \<^enum> \<^verbatim>\<open>/^\s*X Thought for.*$/gm\<close>, \<open>X\<close> being U+2234
  \<^enum> \<^verbatim>\<open>/^\s*X Incubating.*$/gm\<close>, \<open>X\<close> being U+273D
  \<^enum> \<^verbatim>\<open>/\(ctrl\+o to show thinking\)/gi\<close>
  \<^enum> \<^verbatim>\<open>/\(esc to interrupt\)/gi\<close>
  \<^enum> \<^verbatim>\<open>/\(esc to cancel.*\)/gi\<close>
  \<^enum> \<^verbatim>\<open>/^\s*[XY]\s+\w+.*$/gm\<close>, \<open>X\<close> and \<open>Y\<close> being U+2713 and U+2717
  \<^enum> \<^verbatim>\<open>/^>\s*$/gm\<close>
  \<^enum> \<^verbatim>\<open>/\.\.\.\s*generating more\s*\.\.\./gi\<close>
\<close>

definition chromePatterns :: "regex list" where
  "chromePatterns =
     [seqs [chr 27, chr 91, Star (Cls [(48, 57), (59, 59)]), Cls [(97, 122), (65, 90)]],
      seqs [chr 27, chr 91, optional (chr 63), oneOrMore digit,
            Cls [(104, 104), (108, 108)]],
      seqs [chr 27, chr 91, Star digit, optional (chr 32), chr 113],
      seqs [chr 27, chr 93, Star (NCls [(7, 7)]), chr 7],
      seqs [chars ''Loaded cached credentials'', optional (chr 46), Star whiteSpace],
      Cls spinnerFrames,
      Cls boxDrawing,
      seqs [Bol, Star whiteSpace, chars ''Using:'', Star anyChar, chars ''MCP server'',
            optional (chr 115), Star whiteSpace, Eol],
      seqs [Bol, Star whiteSpace, chars ''~/'', Star anyChar, chars ''(main'',
            optional (chr 42), chr 41, Star anyChar, Eol],
      seqs [Bol, Star whiteSpace, chars ''~/'', Star (NCls [(10, 10)]), Eol],
      seqs [Bol, Star whiteSpace, charsCI ''no sandbox'', Star anyChar, Eol],
      seqs [Bol, Star whiteSpace, chars ''auto'', Star whiteSpace, Eol],
      seqs [Bol, Star whiteSpace, chars ''Reading'', Star anyChar, chars ''(esc to cancel'',
            Star anyChar, chr 41, Star whiteSpace, Eol],
      seqs [Bol, Star whiteSpace, chars ''Type your message or @path'', Star anyChar, Eol],
      seqs [Bol, Star whiteSpace, chr 62, Star whiteSpace, chars ''Type your message'',
            Star anyChar, Eol],
      seqs [Bol, Star whiteSpace, chr 63, Star whiteSpace, chars ''for shortcuts'',
            Star whiteSpace, Eol],
      seqs [Bol, Star whiteSpace, chars ''Try '', chr 34, Star anyChar, chr 34,
            Star whiteSpace, Eol],
      seqs [Bol, Star whiteSpace, chr 8756, chars '' Thought for'', Star anyChar, Eol],
      seqs [Bol, Star whiteSpace, chr 10045, chars '' Incubating'', Star anyChar, Eol],
      charsCI ''(ctrl+o to show thinking)'',
      charsCI ''(esc to interrupt)'',
      seqs [charsCI ''(esc to cancel'', Star anyChar, chr 41],
      seqs [Bol, Star whiteSpace, Cls [(10003, 10003), (10007, 10007)], oneOrMore whiteSpace,
            oneOrMore wordChar, Star anyChar, Eol],
      seqs [Bol, chr 62, Star whiteSpace, Eol],
      seqs [chars ''...'', Star whiteSpace, charsCI ''generating more'', Star whiteSpace,
            chars ''...'']]"

text \<open>
  The streaming indicators, all with the flags \<open>gi\<close>:

  \<^enum> \<^verbatim>\<open>/Defining the Response Strategy/gi\<close>
  \<^enum> \<^verbatim>\<open>/Formulating\s+\w+\s+Code/gi\<close>
  \<^enum> \<^verbatim>\<open>/Formulating\s+\w+\s+Response/gi\<close>
  \<^enum> \<^verbatim>\<open>/Considering\s+the\s+Response\s+Format/gi\<close>
  \<^enum> \<^verbatim>\<open>/Presenting\s+the\s+Code/gi\<close>
  \<^enum> \<^verbatim>\<open>/Presenting\s+the\s+Response/gi\<close>
  \<^enum> \<^verbatim>\<open>/Providing\s+\w+\s+Code\s+Example/gi\<close>
  \<^enum> \<^verbatim>\<open>/Generating\s+\w+\s+Code/gi\<close>
  \<^enum> \<^verbatim>\<open>/Writing\s+the\s+Code/gi\<close>
\<close>

definition streamingPatterns :: "regex list" where
  "streamingPatterns =
     [charsCI ''Defining the Response Strategy'',
      seqs [charsCI ''Formulating'', oneOrMore whiteSpace, oneOrMore wordChar,
            oneOrMore whiteSpace, charsCI ''Code''],
      seqs [charsCI ''Formulating'', oneOrMore whiteSpace, oneOrMore wordChar,
            oneOrMore whiteSpace, charsCI ''Response''],
      seqs [charsCI ''Considering'', oneOrMore whiteSpace, charsCI ''the'',
            oneOrMore whiteSpace, charsCI ''Response'', oneOrMore whiteSpace,
            charsCI ''Format''],
      seqs [charsCI ''Presenting'', oneOrMore whiteSpace, charsCI ''the'',
            oneOrMore whiteSpace, charsCI ''Code''],
      seqs [charsCI ''Presenting'', oneOrMore whiteSpace, charsCI ''the'',
            oneOrMore whiteSpace, charsCI ''Response''],
      seqs [charsCI ''Providing'', oneOrMore whiteSpace, oneOrMore wordChar,
            oneOrMore whiteSpace, charsCI ''Code'', oneOrMore whiteSpace,
            charsCI ''Example''],
      seqs [charsCI ''Generating'', oneOrMore whiteSpace, oneOrMore wordChar,
            oneOrMore whiteSpace, charsCI ''Code''],
      seqs [charsCI ''Writing'', oneOrMore whiteSpace, charsCI ''the'',
            oneOrMore whiteSpace, charsCI ''Code'']]"

text \<open>
  The ends of the matches that the loop over \<open>regex.exec(output)\<close> finds, from
  position \<open>i\<close> on. A match of a streaming pattern is never empty: it begins with a
  letter.
\<close>

function matchEndsFrom :: "regex \<Rightarrow> jstring \<Rightarrow> nat \<Rightarrow> nat list" where
  "matchEndsFrom r s i =
     (if length s < i then []
      else (case ends r s i of
              [] \<Rightarrow> if i < length s then matchEndsFrom r s (Suc i) else []
            | e # _ \<Rightarrow> e # (if i < e then matchEndsFrom r s e else [])))"
  by pat_completeness auto
termination
  by (relation "measure (\<lambda>(r, s, i). Suc (length s) - i)") auto

text \<open>\<open>lastIndexOf\<close>, \<open>split\<close> and \<open>join\<close> of a string.\<close>

definition lastIndexOf :: "nat \<Rightarrow> jstring \<Rightarrow> nat option" where
  "lastIndexOf c s =
     (case filter (\<lambda>i. s ! i = c) (rev [0..<length s]) of [] \<Rightarrow> None | i # _ \<Rightarrow> Some i)"

fun splitOn :: "nat \<Rightarrow> jstring \<Rightarrow> jstring list" where
  "splitOn c [] = [[]]"
| "splitOn c (x # xs) =
     (if x = c then [] # splitOn c xs
      else (case splitOn c xs of [] \<Rightarrow> [[x]] | l # ls \<Rightarrow> (x # l) # ls))"

fun joinWith :: "jstring \<Rightarrow> jstring list \<Rightarrow> jstring" where
  "joinWith sep [] = []"
| "joinWith sep [l] = l"
| "joinWith sep (l # ls) = l @ sep @ joinWith sep ls"

text \<open>
  The filter of the lines: a line goes when its trimmed form is shorter than 3 and
  consists of white space and the six box characters of the pattern.
\<close>

definition keepLine :: "jstring \<Rightarrow> bool" where
  "keepLine line =
     (let trimmed = trim line
      in \<not> (regexTest
               (seqs [Bos,
                      Star (Cls (wsRanges @
                                 map (\<lambda>c. (c, c)) [9474, 9472, 9581, 9582, 9584, 9583])),
                      Eos]) trimmed
             \<and> length trimmed < 3))"

text \<open>
  \<open>cleanResponse\<close> in its four parts: the replacements, the cut behind the last
  streaming indicator (or else behind the last marker U+2726), the filter of the lines,
  and the final cleanup.
\<close>

definition stripChrome :: "jstring \<Rightarrow> jstring" where
  "stripChrome output = foldl (\<lambda>output r. replaceAll r [] output) output chromePatterns"

definition lastIndicatorEnd :: "jstring \<Rightarrow> nat" where
  "lastIndicatorEnd output =
     foldl max 0 (concat (map (\<lambda>r. matchEndsFrom r output 0) streamingPatterns))"

definition afterLastIndicator :: "jstring \<Rightarrow> jstring" where
  "afterLastIndicator output =
     (if 0 < lastIndicatorEnd output then trim (drop (lastIndicatorEnd output) output)
      else (case lastIndexOf 10022 output of
              None \<Rightarrow> output
            | Some lastMarkerIndex \<Rightarrow> trim (drop (lastMarkerIndex + 1) output)))"

definition dropGarbageLines :: "jstring \<Rightarrow> jstring" where
  "dropGarbageLines output = joinWith [10] (filter keepLine (splitOn 10 output))"

definition finalCleanup :: "jstring \<Rightarrow> jstring" where
  "finalCleanup output =
     trim (replaceAll (seqs [Bol, oneOrMore whiteSpace, Eol]) []
             (replaceAll (seqs [chr 10, chr 10, chr 10, Star (chr 10)]) [10, 10] output))"

definition cleanResponse :: "jstring \<Rightarrow> jstring" where
  "cleanResponse rawOutput =
     finalCleanup (dropGarbageLines (afterLastIndicator (stripChrome rawOutput)))"

section \<open>Predicates and sample states of the properties\<close>

text \<open>
  \<open>hasStripAnsiMatch s\<close>: the pattern of \<open>stripAnsi\<close> matches somewhere in \<open>s\<close>, so
  that \<open>replace\<close> has something to cut. The pattern covers ESC followed by one character
  from \<open>@\<close> to \<open>Z\<close> or from \<open>\\<close> to \<open>_\<close>, and the control sequences that begin
  with ESC \<open>[\<close>. It does not cover every escape sequence of a terminal: ESC \<open>c\<close> (reset),
  ESC \<open>7\<close> and ESC \<open>8\<close> (save and restore the cursor), ESC \<open>(\<close> \<open>B\<close> (character set)
  and the one-character CSI 155 are not matched. A string has outer white space when
  \<open>trim\<close> has something to cut.
\<close>

definition hasStripAnsiMatch :: "jstring \<Rightarrow> bool" where
  "hasStripAnsiMatch s = list_ex (\<lambda>i. ends ansiRe s i \<noteq> []) [0..<length s]"

definition hasOuterWhiteSpace :: "jstring \<Rightarrow> bool" where
  "hasOuterWhiteSpace s = (s \<noteq> [] \<and> (isWhiteSpace (hd s) \<or> isWhiteSpace (last s)))"


text \<open>The \<open>echo\<close> daemon after a run of events from its construction.\<close>

definition echoAfter :: "event list \<Rightarrow> ToolDaemon" where
  "echoAfter evs =
     (case run (newToolDaemon echoConfig) evs of
        None \<Rightarrow> newToolDaemon echoConfig
      | Some (d, fx) \<Rightarrow> d)"

text \<open>Every daemon in state Interactive is the active one.\<close>

definition onlyActiveInteractive :: "DaemonManager \<Rightarrow> bool" where
  "onlyActiveInteractive m =
     list_all (\<lambda>(n, d). getState d = Interactive \<longrightarrow> activeDaemon m = Some n \<and> truthy n)
       (daemons m)"

text \<open>Two tools with no prompt pattern, and the manager after a run of operations.\<close>

definition claudeConfig :: DaemonConfig where
  "claudeConfig =
     \<lparr> name = lit ''claude'', displayName = lit ''Claude Code'', command = lit ''claude'',
       args = [], cwd = None, promptPattern = None, responseTimeout = Absent,
       startupTimeout = Absent \<rparr>"

definition geminiConfig :: DaemonConfig where
  "geminiConfig =
     \<lparr> name = lit ''gemini'', displayName = lit ''Gemini CLI'', command = lit ''gemini'',
       args = [], cwd = None, promptPattern = None, responseTimeout = Absent,
       startupTimeout = Absent \<rparr>"

definition managerAfter :: "managerOp list \<Rightarrow> DaemonManager" where
  "managerAfter ops =
     (case managerRun newDaemonManager ops of None \<Rightarrow> newDaemonManager | Some (m, fx) \<Rightarrow> m)"

text \<open>The output \<open>hello\<close> in green, with the line end of a terminal.\<close>

definition colouredHello :: jstring where
  "colouredHello = 27 # lit ''[32mhello'' @ 27 # lit ''[0m'' @ [13, 10]"

text \<open>
  A child process fails when it closes with an exit code other than 0 or cannot be
  spawned: the cases in which \<open>sendToClaude\<close> and \<open>sendToGemini\<close> reject.
\<close>

definition procFails :: "ProcOutcome \<Rightarrow> bool" where
  "procFails out = (case out of Closed code stdout stderr \<Rightarrow> code \<noteq> Some 0 | SpawnFailed e \<Rightarrow> True)"

text \<open>
  A registry with the two adapters, and sessions in which \<open>gemini\<close> has answered
  \<open>X\<close>.
\<close>

definition sampleRegistry :: "jstring \<Rightarrow> ToolAdapter option" where
  "sampleRegistry n =
     (if n = lit ''claude''
      then Some \<lparr> adapterName = lit ''claude'', adapterDisplayName = lit ''Claude Code'',
                  isAvailable = True \<rparr>
      else if n = lit ''gemini''
      then Some \<lparr> adapterName = lit ''gemini'', adapterDisplayName = lit ''Gemini CLI'',
                  isAvailable = True \<rparr>
      else None)"

definition sampleSession :: SessionManager where
  "sampleSession =
     \<lparr> messages = [\<lparr> tool = lit ''gemini'', role = User, content = lit ''Q'', timestamp = 1 \<rparr>,
                   \<lparr> tool = lit ''gemini'', role = Assistant, content = lit ''X'', timestamp = 2 \<rparr>],
       defaultTool = lit ''claude'', registry = sampleRegistry \<rparr>"

definition sampleSDKSession :: SDKSession where
  "sampleSDKSession =
     \<lparr> activeTool = lit ''gemini'',
       conversationHistory = [\<lparr> tool = lit ''gemini'', role = User, content = lit ''Q'' \<rparr>,
                              \<lparr> tool = lit ''gemini'', role = Assistant, content = lit ''X'' \<rparr>],
       claudeHasSession = False, geminiHasSession = True \<rparr>"

section \<open>Properties\<close>

subsection \<open>Matching and replacing\<close>

lemma starEnds_ge:
  assumes "\<And>j e. e \<in> set (f j) \<Longrightarrow> j \<le> e"
  shows "e \<in> set (starEnds f n i) \<Longrightarrow> i \<le> e"
proof (induction n arbitrary: i e)
  case 0
  then show ?case by simp
next
  case (Suc n)
  from Suc.prems consider "e = i" | x where "x \<in> set (f i)" "i < x" "e \<in> set (starEnds f n x)"
    by (auto split: if_splits)
  then show ?case
  proof cases
    case 1
    then show ?thesis by simp
  next
    case 2
    from Suc.IH [OF 2(3)] 2(2) show ?thesis by simp
  qed
qed

lemma ends_ge: "e \<in> set (ends r s i) \<Longrightarrow> i \<le> e"
proof (induction r arbitrary: i e)
  case (Seq r1 r2)
  then obtain x where "x \<in> set (ends r1 s i)" "e \<in> set (ends r2 s x)" by auto
  with Seq.IH show ?case by (meson le_trans)
next
  case (Star r)
  then show ?case using starEnds_ge [of "ends r s"] by auto
qed (auto split: if_splits)

lemma ends_Seq_chr:
  "ends (Seq (chr c) r) s i = (if i < length s \<and> s ! i = c then ends r s (Suc i) else [])"
  by (auto simp: chr_def inClass_def)

lemma ends_Seq_chr_gt: "e \<in> set (ends (Seq (chr c) r) s i) \<Longrightarrow> i < e"
proof -
  assume "e \<in> set (ends (Seq (chr c) r) s i)"
  then have "e \<in> set (ends r s (Suc i))"
    by (simp only: ends_Seq_chr split: if_splits) simp
  then have "Suc i \<le> e" by (rule ends_ge)
  then show ?thesis by simp
qed

lemma ends_ansiRe_gt: "e \<in> set (ends ansiRe s i) \<Longrightarrow> i < e"
  unfolding ansiRe_def by (rule ends_Seq_chr_gt)

lemma length_replaceFrom_le: "length (replaceFrom r [] s i) \<le> length s - i"
proof (induction r "[] :: jstring" s i rule: replaceFrom.induct)
  case (1 r s i)
  show ?case
  proof (cases "length s \<le> i")
    case True
    then show ?thesis by (subst replaceFrom.simps) (simp split: list.splits)
  next
    case False
    then have il: "\<not> length s < i" "i < length s" by simp_all
    show ?thesis
    proof (cases "ends r s i")
      case Nil
      with il 1(1) show ?thesis by (subst replaceFrom.simps) auto
    next
      case (Cons e es)
      show ?thesis
      proof (cases "i < e")
        case True
        with il Cons 1(2) [of e es] show ?thesis by (subst replaceFrom.simps) auto
      next
        case ne: False
        with il Cons 1(3) [of e es] show ?thesis by (subst replaceFrom.simps) auto
      qed
    qed
  qed
qed

lemma replaceFrom_shorter:
  "i \<le> j \<Longrightarrow> j < length s \<Longrightarrow> ends r s j \<noteq> [] \<Longrightarrow> j < hd (ends r s j)
     \<Longrightarrow> length (replaceFrom r [] s i) < length s - i"
proof (induction r "[] :: jstring" s i rule: replaceFrom.induct)
  case (1 r s i)
  from 1(4,5) have il: "\<not> length s < i" "i < length s" by simp_all
  show ?case
  proof (cases "ends r s i")
    case Nil
    with 1(6) have "i \<noteq> j" by auto
    with 1(4) have "Suc i \<le> j" by simp
    from 1(1) [OF il(1) Nil il(2) this 1(5) 1(6) 1(7)] il Nil show ?thesis
      by (subst replaceFrom.simps) auto
  next
    case (Cons e es)
    show ?thesis
    proof (cases "i < e")
      case True
      have "length (replaceFrom r [] s e) \<le> length s - e" by (rule length_replaceFrom_le)
      with il Cons True show ?thesis by (subst replaceFrom.simps) auto
    next
      case ne: False
      with Cons 1(7) have "i \<noteq> j" by auto
      with 1(4) have "Suc i \<le> j" by simp
      from 1(3) [OF il(1) Cons ne il(2) this 1(5) 1(6) 1(7)] il Cons ne show ?thesis
        by (subst replaceFrom.simps) auto
    qed
  qed
qed

lemma replaceFrom_no_match:
  "(\<And>j. i \<le> j \<Longrightarrow> j < length s \<Longrightarrow> ends r s j = []) \<Longrightarrow> replaceFrom r [] s i = drop i s"
proof (induction r "[] :: jstring" s i rule: replaceFrom.induct)
  case (1 r s i)
  show ?case
  proof (cases "length s \<le> i")
    case True
    then show ?thesis by (subst replaceFrom.simps) (simp split: list.splits)
  next
    case False
    then have il: "\<not> length s < i" "i < length s" by simp_all
    from il have nil: "ends r s i = []" using 1(4) [of i] by simp
    have "replaceFrom r [] s (Suc i) = drop (Suc i) s"
      using 1(1) [OF il(1) nil il(2)] 1(4) by simp
    with il nil show ?thesis
      by (subst replaceFrom.simps) (simp add: Cons_nth_drop_Suc)
  qed
qed

lemma hasStripAnsiMatch_iff: "hasStripAnsiMatch s \<longleftrightarrow> (\<exists>j<length s. ends ansiRe s j \<noteq> [])"
  by (auto simp: hasStripAnsiMatch_def list_ex_iff)

lemma stripAnsi_clean: "\<not> hasStripAnsiMatch s \<Longrightarrow> stripAnsi s = s"
  using replaceFrom_no_match [of 0 s ansiRe]
  by (simp add: stripAnsi_def replaceAll_def hasStripAnsiMatch_iff)

lemma length_stripAnsi_le: "length (stripAnsi s) \<le> length s"
  using length_replaceFrom_le [of ansiRe s 0] by (simp add: stripAnsi_def replaceAll_def)

lemma stripAnsi_shorter: "hasStripAnsiMatch s \<Longrightarrow> length (stripAnsi s) < length s"
proof -
  assume "hasStripAnsiMatch s"
  then obtain j where j: "j < length s" "ends ansiRe s j \<noteq> []"
    by (auto simp: hasStripAnsiMatch_iff)
  then have "hd (ends ansiRe s j) \<in> set (ends ansiRe s j)" by simp
  then have "j < hd (ends ansiRe s j)" by (rule ends_ansiRe_gt)
  from replaceFrom_shorter [OF _ j(1) j(2) this, of 0] show ?thesis
    by (simp add: stripAnsi_def replaceAll_def)
qed

lemma length_trim_le: "length (trim s) \<le> length s"
proof -
  have "length (trim s) \<le> length (dropWhile isWhiteSpace s)"
    unfolding trim_def
    using length_dropWhile_le [of isWhiteSpace "rev (dropWhile isWhiteSpace s)"] by simp
  also have "\<dots> \<le> length s" by (rule length_dropWhile_le)
  finally show ?thesis .
qed

lemma dropWhile_id: "xs = [] \<or> \<not> P (hd xs) \<Longrightarrow> dropWhile P xs = xs"
  by (cases xs) auto

lemma trim_clean: "\<not> hasOuterWhiteSpace s \<Longrightarrow> trim s = s"
proof (cases "s = []")
  case True
  then show ?thesis by (simp add: trim_def)
next
  case False
  assume "\<not> hasOuterWhiteSpace s"
  with False have h: "\<not> isWhiteSpace (hd s)" and l: "\<not> isWhiteSpace (last s)"
    by (simp_all add: hasOuterWhiteSpace_def)
  from h have 1: "dropWhile isWhiteSpace s = s" by (intro dropWhile_id) simp
  from l False have "\<not> isWhiteSpace (hd (rev s))" by (simp add: hd_rev)
  then have 2: "dropWhile isWhiteSpace (rev s) = rev s" by (intro dropWhile_id) simp
  show ?thesis by (simp add: trim_def 1 2)
qed

lemma dropWhile_shorter: "xs \<noteq> [] \<Longrightarrow> P (hd xs) \<Longrightarrow> length (dropWhile P xs) < length xs"
  by (cases xs) (simp_all add: le_imp_less_Suc length_dropWhile_le)

lemma last_dropWhile: "dropWhile P xs \<noteq> [] \<Longrightarrow> last (dropWhile P xs) = last xs"
  by (induction xs) (auto split: if_splits)

lemma trim_shorter:
  assumes "s \<noteq> []" "isWhiteSpace (hd s) \<or> isWhiteSpace (last s)"
  shows "length (trim s) < length s"
proof -
  let ?d = "dropWhile isWhiteSpace s"
  have le: "length (trim s) \<le> length ?d"
    unfolding trim_def using length_dropWhile_le [of isWhiteSpace "rev ?d"] by simp
  from assms(2) show ?thesis
  proof
    assume "isWhiteSpace (hd s)"
    with assms(1) have "length ?d < length s" by (rule dropWhile_shorter)
    with le show ?thesis by simp
  next
    assume l: "isWhiteSpace (last s)"
    show ?thesis
    proof (cases "?d = []")
      case True
      have "trim s = []" unfolding trim_def True by simp
      with assms(1) show ?thesis by simp
    next
      case False
      then have "last ?d = last s" by (rule last_dropWhile)
      with l False have "isWhiteSpace (hd (rev ?d))" by (simp add: hd_rev)
      with False have "length (dropWhile isWhiteSpace (rev ?d)) < length (rev ?d)"
        by (intro dropWhile_shorter) simp_all
      then have "length (trim s) < length ?d" by (simp add: trim_def)
      also have "\<dots> \<le> length s" by (rule length_dropWhile_le)
      finally show ?thesis .
    qed
  qed
qed

subsection \<open>The daemon\<close>

lemmas daemon_defs =
  newToolDaemon_def echoConfig_def step_def start_def onReadyTimer_def onStartupTimeout_def
  becomeReady_def send_def resetResponseTimeout_def onData_def onExit_def completeResponse_def
  enterInteractiveMode_def exitInteractiveMode_def writeData_def stop_def onStdinData_def
  getState_def getLastResponse_def Let_def

lemma sanitize_differs:
  assumes "hasStripAnsiMatch s \<or> hasOuterWhiteSpace s"
  shows "trim (stripAnsi s) \<noteq> s"
proof -
  have "length (trim (stripAnsi s)) < length s"
  proof (cases "hasStripAnsiMatch s")
    case True
    then have "length (stripAnsi s) < length s" by (rule stripAnsi_shorter)
    with length_trim_le [of "stripAnsi s"] show ?thesis by simp
  next
    case False
    with assms have ws: "hasOuterWhiteSpace s" by simp
    from False have "stripAnsi s = s" by (rule stripAnsi_clean)
    with ws show ?thesis by (simp add: hasOuterWhiteSpace_def trim_shorter)
  qed
  then show ?thesis by auto
qed

lemma sanitize_differs_iff:
  "trim (stripAnsi s) \<noteq> s \<longleftrightarrow> hasStripAnsiMatch s \<or> hasOuterWhiteSpace s"
proof
  assume d: "trim (stripAnsi s) \<noteq> s"
  show "hasStripAnsiMatch s \<or> hasOuterWhiteSpace s"
  proof (rule ccontr)
    assume "\<not> (hasStripAnsiMatch s \<or> hasOuterWhiteSpace s)"
    then have "stripAnsi s = s" "trim s = s" by (simp_all add: stripAnsi_clean trim_clean)
    with d show False by simp
  qed
next
  assume "hasStripAnsiMatch s \<or> hasOuterWhiteSpace s"
  then show "trim (stripAnsi s) \<noteq> s" by (rule sanitize_differs)
qed

lemma stripAnsi_reset: "stripAnsi [27, 99] = [27, 99]" "\<not> hasStripAnsiMatch [27, 99]"
  by code_simp+

lemma trim_reset: "trim [27, 99] = [27, 99]"
  by (simp add: trim_def isWhiteSpace_def inClass_def wsRanges_def)

lemma step_ResponseTimeout:
  assumes "responseResolver d" "responseTimeoutId d"
  shows "step d ResponseTimeout =
     Some (d\<lparr> responseTimeoutId := False, lastResponse := trim (stripAnsi (responseBuffer d)),
               responseResolver := False, responseBuffer := [], state := Ready \<rparr>,
           [SendResolved (responseBuffer d)])"
  using assms by (simp add: step_def completeResponse_def Let_def)

lemma step_timer_invariant:
  assumes "responseResolver d \<longrightarrow> responseTimeoutId d" "step d ev = Some (d', fx)"
  shows "responseResolver d' \<longrightarrow> responseTimeoutId d'"
  using assms
  by (cases ev)
     (auto simp: step_def start_def send_def resetResponseTimeout_def enterInteractiveMode_def
        exitInteractiveMode_def writeData_def stop_def onData_def onExit_def becomeReady_def
        onStartupTimeout_def onReadyTimer_def completeResponse_def onStdinData_def Let_def
        split: if_splits option.splits sum.splits prod.splits)


lemma run_invariant:
  assumes inv: "\<And>d ev d' fx. P d \<Longrightarrow> step d ev = Some (d', fx) \<Longrightarrow> P d'"
  shows "P d \<Longrightarrow> run d evs = Some (d', fx) \<Longrightarrow> P d'"
proof (induction evs arbitrary: d fx)
  case Nil
  then show ?case by simp
next
  case (Cons ev evs)
  from Cons.prems(2) obtain d1 fx1 fx2 where
    s: "step d ev = Some (d1, fx1)" and r: "run d1 evs = Some (d', fx2)"
    by (auto split: option.splits prod.splits)
  from inv [OF Cons.prems(1) s] have "P d1" .
  from Cons.IH [OF this r] show ?case .
qed

lemma reachable_timer:
  assumes "reachable cfg d" shows "responseResolver d \<longrightarrow> responseTimeoutId d"
proof -
  from assms obtain evs fx where r: "run (newToolDaemon cfg) evs = Some (d, fx)"
    by (auto simp: reachable_def)
  have "responseResolver (newToolDaemon cfg) \<longrightarrow> responseTimeoutId (newToolDaemon cfg)"
    by (simp add: newToolDaemon_def)
  from run_invariant [where P = "\<lambda>d. responseResolver d \<longrightarrow> responseTimeoutId d", OF _ this r]
  show ?thesis using step_timer_invariant by blast
qed


lemma reachable_echoAfter:
  "run (newToolDaemon echoConfig) evs \<noteq> None \<Longrightarrow> reachable echoConfig (echoAfter evs)"
  by (fastforce simp: reachable_def echoAfter_def)

lemma stripAnsi_hello: "stripAnsi (lit ''hello'') = lit ''hello''"
  by code_simp

lemma trim_hello: "trim (lit ''hello'') = lit ''hello''"
  by (simp add: trim_def lit_def isWhiteSpace_def inClass_def wsRanges_def)

lemma stripAnsi_colouredHello: "stripAnsi colouredHello = lit ''hello'' @ [13, 10]"
  by code_simp

lemma hasStripAnsiMatch_colouredHello: "hasStripAnsiMatch colouredHello"
  by code_simp

lemma trim_hello_crlf: "trim (lit ''hello'' @ [13, 10]) = lit ''hello''"
  by (simp add: trim_def lit_def isWhiteSpace_def inClass_def wsRanges_def)

lemma echo_busy_hello:
  "echoAfter [CallStart, ReadyTimer 0, CallSend (lit ''hello''), PtyData 0 data] =
     \<lparr> pty = Some 0,
       config = echoConfig\<lparr> responseTimeout := Value 3000, startupTimeout := Value 60000 \<rparr>,
       state = Busy, outputBuffer = data, responseBuffer = data, lastResponse = [],
       responseResolver = True, responseTimeoutId = True, interactiveStdinHandler = False,
       stdinListeners = 0, dataListeners = 0,
       calls = [\<lparr> startupTimer = False, readyTimer = False, settled = True, ptyAlive = True \<rparr>] \<rparr>"
  by (simp add: echoAfter_def daemon_defs)

text \<open>
  C5: a \<open>send\<close> to a daemon whose state is not Ready is rejected: the daemon is left as
  it was (it does not become Busy and keeps no record of the command), and nothing is
  written to the pseudo terminal; the only effect is the rejection of the promise.
\<close>

theorem send_rejected_unless_ready:
  "getState d \<noteq> Ready \<Longrightarrow>
     \<exists>e. send d cmd = Inl e \<and> step d (CallSend cmd) = Some (d, [SendRejected e])"
  by (auto simp: getState_def send_def step_def split: option.splits)

text \<open>C5 at the \<open>echo\<close> daemon while it is Busy with \<open>hello\<close>.\<close>

theorem send_rejected_unless_ready_witness:
  "getState (echoAfter [CallStart, ReadyTimer 0, CallSend (lit ''hello'')]) \<noteq> Ready \<and>
   (\<exists>e. send (echoAfter [CallStart, ReadyTimer 0, CallSend (lit ''hello'')]) (lit ''again'') = Inl e \<and>
        step (echoAfter [CallStart, ReadyTimer 0, CallSend (lit ''hello'')]) (CallSend (lit ''again'')) =
          Some (echoAfter [CallStart, ReadyTimer 0, CallSend (lit ''hello'')], [SendRejected e]))"
proof -
  have h: "getState (echoAfter [CallStart, ReadyTimer 0, CallSend (lit ''hello'')]) \<noteq> Ready"
    by (simp add: echoAfter_def daemon_defs)
  from send_rejected_unless_ready [OF h] h show ?thesis by blast
qed

text \<open>
  C4, as the code has it: when the idle timer fires while a send is pending, the last
  response becomes the trimmed, ANSI-stripped response buffer, the buffer is emptied and
  the state is Ready. The daemon has no session-continuation flag: apart from these
  fields, the resolver and the timer handle, nothing of the daemon changes.
\<close>

theorem idle_timer_completes_send:
  assumes "responseResolver d" "responseTimeoutId d"
  shows "\<exists>d'. step d ResponseTimeout = Some (d', [SendResolved (responseBuffer d)]) \<and>
           getLastResponse d' = trim (stripAnsi (responseBuffer d)) \<and>
           responseBuffer d' = [] \<and> getState d' = Ready \<and>
           d' = d\<lparr> responseTimeoutId := False, lastResponse := trim (stripAnsi (responseBuffer d)),
                    responseResolver := False, responseBuffer := [], state := Ready \<rparr>"
  using step_ResponseTimeout [OF assms] by (simp add: getLastResponse_def getState_def)

text \<open>C4 at the \<open>echo\<close> daemon that has answered \<open>hello\<close> in green.\<close>

theorem idle_timer_completes_send_witness:
  "responseResolver (echoAfter [CallStart, ReadyTimer 0, CallSend (lit ''hello''), PtyData 0 colouredHello]) \<and>
   responseTimeoutId (echoAfter [CallStart, ReadyTimer 0, CallSend (lit ''hello''), PtyData 0 colouredHello]) \<and>
   (\<exists>d'. step (echoAfter [CallStart, ReadyTimer 0, CallSend (lit ''hello''), PtyData 0 colouredHello])
            ResponseTimeout = Some (d', [SendResolved colouredHello]) \<and>
         getLastResponse d' = lit ''hello'' \<and> responseBuffer d' = [] \<and> getState d' = Ready)"
proof -
  let ?d = "echoAfter [CallStart, ReadyTimer 0, CallSend (lit ''hello''), PtyData 0 colouredHello]"
  have r: "responseResolver ?d" and t: "responseTimeoutId ?d" and b: "responseBuffer ?d = colouredHello"
    by (simp_all add: echo_busy_hello)
  from idle_timer_completes_send [OF r t] r t b show ?thesis
    by (auto simp: stripAnsi_colouredHello trim_hello_crlf)
qed

text \<open>
  C4 as stated fails on the flag: after a complete exchange the \<open>echo\<close> daemon is the
  daemon it was before the send, but for the output buffer and the last response. No field
  records that an exchange has taken place.
\<close>

theorem completion_sets_no_flag_counterexample:
  "echoAfter [CallStart, ReadyTimer 0, CallSend (lit ''hello''), PtyData 0 (lit ''hello''),
              ResponseTimeout] =
   (echoAfter [CallStart, ReadyTimer 0])
     \<lparr> outputBuffer := lit ''hello'', lastResponse := lit ''hello'' \<rparr> \<and>
   getState (echoAfter [CallStart, ReadyTimer 0]) = Ready"
  by (simp add: echoAfter_def daemon_defs stripAnsi_hello trim_hello)

text \<open>
  C10, as the code has it: when the idle timer completes a send, the promise is resolved
  with the response buffer as it is, and the last response is \<open>stripAnsi\<close> of the buffer,
  trimmed. The two differ exactly when the pattern of \<open>stripAnsi\<close> matches somewhere in
  the buffer or the buffer begins or ends with white space. An escape sequence that the
  pattern does not match stays in the last response and makes no difference.
\<close>

theorem send_resolves_raw_buffer:
  assumes "responseResolver d" "responseTimeoutId d"
  shows "\<exists>d'. step d ResponseTimeout = Some (d', [SendResolved (responseBuffer d)]) \<and>
           getLastResponse d' = trim (stripAnsi (responseBuffer d)) \<and>
           (getLastResponse d' \<noteq> responseBuffer d \<longleftrightarrow>
              hasStripAnsiMatch (responseBuffer d) \<or> hasOuterWhiteSpace (responseBuffer d))"
  using step_ResponseTimeout [OF assms] sanitize_differs_iff [of "responseBuffer d"]
  by (simp add: getLastResponse_def)

text \<open>
  C10 at the \<open>echo\<close> daemon that has answered \<open>hello\<close> in green: the promise gets
  the colours and the line end, the last response is \<open>hello\<close>.
\<close>

theorem send_resolves_raw_buffer_witness:
  "responseResolver (echoAfter [CallStart, ReadyTimer 0, CallSend (lit ''hello''), PtyData 0 colouredHello]) \<and>
   responseTimeoutId (echoAfter [CallStart, ReadyTimer 0, CallSend (lit ''hello''), PtyData 0 colouredHello]) \<and>
   hasStripAnsiMatch colouredHello \<and>
   (\<exists>d'. step (echoAfter [CallStart, ReadyTimer 0, CallSend (lit ''hello''), PtyData 0 colouredHello])
            ResponseTimeout = Some (d', [SendResolved colouredHello]) \<and>
         getLastResponse d' = lit ''hello'' \<and> getLastResponse d' \<noteq> colouredHello)"
proof -
  let ?d = "echoAfter [CallStart, ReadyTimer 0, CallSend (lit ''hello''), PtyData 0 colouredHello]"
  have r: "responseResolver ?d" and t: "responseTimeoutId ?d" and b: "responseBuffer ?d = colouredHello"
    by (simp_all add: echo_busy_hello)
  from send_resolves_raw_buffer [OF r t] r t b hasStripAnsiMatch_colouredHello show ?thesis
    by (auto simp: stripAnsi_colouredHello trim_hello_crlf)
qed

text \<open>
  C10 as stated fails: ESC \<open>c\<close>, the escape sequence that resets a terminal, is not
  matched by the pattern of \<open>stripAnsi\<close>. When the \<open>echo\<close> daemon answers with it, the
  promise is resolved with ESC \<open>c\<close> and the last response is ESC \<open>c\<close> as well: the
  buffer contains an escape sequence, and the two do not differ.
\<close>

theorem unmatched_escape_same_response_counterexample:
  "map_option snd (run (newToolDaemon echoConfig)
       [CallStart, ReadyTimer 0, CallSend (lit ''hello''), PtyData 0 [27, 99],
        ResponseTimeout]) =
   Some [PtySpawn 0 (lit ''cat'') [], StartResolved 0, PtyWrite 0 (lit ''hello\<newline>''),
         EmitData [27, 99], SendResolved [27, 99]] \<and>
   getLastResponse (echoAfter [CallStart, ReadyTimer 0, CallSend (lit ''hello''),
                               PtyData 0 [27, 99], ResponseTimeout]) = [27, 99]"
  by (simp add: echoAfter_def daemon_defs stripAnsi_reset trim_reset) (simp add: lit_def)

text \<open>
  C2, as the code has it: when the process exits while the daemon is Busy with a pending
  send, the exit handler marks the daemon Dead and emits \<open>exit\<close>; the send is neither
  rejected nor resolved, and the idle timer stays set. When the timer fires, the send is
  resolved with the response buffer gathered so far.
\<close>

theorem exit_while_busy_keeps_send_pending:
  assumes "reachable cfg d" "getState d = Busy" "responseResolver d"
    "k < length (calls d)" "ptyAlive (calls d ! k)"
  shows "\<exists>d'. step d (PtyExit k exitCode) = Some (d', [EmitExit exitCode]) \<and>
           getState d' = Dead \<and> responseResolver d' \<and> responseBuffer d' = responseBuffer d \<and>
           (\<exists>d''. step d' ResponseTimeout = Some (d'', [SendResolved (responseBuffer d)]))"
proof -
  from reachable_timer [OF assms(1)] assms(3) have t: "responseTimeoutId d" by simp
  let ?d' = "fst (onExit k exitCode d)"
  have s: "step d (PtyExit k exitCode) = Some (?d', [EmitExit exitCode])"
    using assms(4,5) by (simp add: step_def onExit_def)
  have p: "responseResolver ?d'" "responseTimeoutId ?d'" "responseBuffer ?d' = responseBuffer d"
    "getState ?d' = Dead"
    using assms(3) t by (simp_all add: onExit_def getState_def)
  from step_ResponseTimeout [OF p(1,2)] p s show ?thesis by auto
qed

text \<open>C2 at the \<open>echo\<close> daemon whose process exits after \<open>hel\<close>.\<close>

theorem exit_while_busy_keeps_send_pending_witness:
  "reachable echoConfig (echoAfter [CallStart, ReadyTimer 0, CallSend (lit ''hello''), PtyData 0 (lit ''hel'')]) \<and>
   getState (echoAfter [CallStart, ReadyTimer 0, CallSend (lit ''hello''), PtyData 0 (lit ''hel'')]) = Busy \<and>
   (\<exists>d'. step (echoAfter [CallStart, ReadyTimer 0, CallSend (lit ''hello''), PtyData 0 (lit ''hel'')])
             (PtyExit 0 1) = Some (d', [EmitExit 1]) \<and>
         getState d' = Dead \<and> responseResolver d' \<and>
         (\<exists>d''. step d' ResponseTimeout = Some (d'', [SendResolved (lit ''hel'')])))"
proof -
  let ?evs = "[CallStart, ReadyTimer 0, CallSend (lit ''hello''), PtyData 0 (lit ''hel'')]"
  let ?d = "echoAfter ?evs"
  have "run (newToolDaemon echoConfig) ?evs \<noteq> None" by (simp add: daemon_defs)
  then have re: "reachable echoConfig ?d" by (rule reachable_echoAfter)
  have h: "getState ?d = Busy" "responseResolver ?d" "0 < length (calls ?d)" "ptyAlive (calls ?d ! 0)"
    and b: "responseBuffer ?d = lit ''hel''"
    by (simp_all add: echo_busy_hello getState_def)
  from exit_while_busy_keeps_send_pending [OF re h, of 1] re h b show ?thesis by auto
qed

text \<open>
  C2 as stated fails: the process of the \<open>echo\<close> daemon exits with code 1 after
  \<open>hel\<close>, and the pending send is not rejected; the idle timer then resolves it with
  \<open>hel\<close>, like any response.
\<close>

theorem exit_while_busy_send_pending_counterexample:
  "map_option snd (run (newToolDaemon echoConfig)
       [CallStart, ReadyTimer 0, CallSend (lit ''hello''), PtyData 0 (lit ''hel''),
        PtyExit 0 1, ResponseTimeout]) =
   Some [PtySpawn 0 (lit ''cat'') [], StartResolved 0, PtyWrite 0 (lit ''hello\<newline>''),
         EmitData (lit ''hel''), EmitExit 1, SendResolved (lit ''hel'')]"
  by (simp add: daemon_defs lit_def)




subsection \<open>The manager\<close>

lemmas manager_defs =
  managerStep_def register_def newDaemonManager_def startOne_def setupAndStartDaemon_def
  get_def getActive_def putDaemon_def setActive_def daemonEvent_def stopAll_def
  retire_def suspendedOn_def replacedEvent_def
  setDisplayHandler_def interactiveNames_def truthy_def claudeConfig_def geminiConfig_def

lemma deliver_daemons: "daemons (fst (deliver m n fx)) = daemons m"
  by (induction m n fx rule: deliver.induct) (auto simp: Let_def split: prod.splits)

lemma onlyActiveInteractive_iff:
  "onlyActiveInteractive m \<longleftrightarrow>
     (\<forall>(n, d) \<in> set (daemons m). getState d = Interactive \<longrightarrow> activeDaemon m = Some n \<and> truthy n)"
  by (auto simp: onlyActiveInteractive_def list_all_iff)

lemma interactiveNames_set:
  "set (interactiveNames m) = {n. \<exists>d. (n, d) \<in> set (daemons m) \<and> getState d = Interactive}"
  by (auto simp: interactiveNames_def) force

lemma distinct_interactiveNames:
  "distinct (map fst (daemons m)) \<Longrightarrow> distinct (interactiveNames m)"
  by (simp add: interactiveNames_def distinct_map_filter)

lemma in_update_cases:
  "distinct (map fst xs) \<Longrightarrow> (n', d') \<in> set (AList.update n d xs)
     \<Longrightarrow> (n' = n \<and> d' = d) \<or> ((n', d') \<in> set xs \<and> n' \<noteq> n)"
  by (induction xs) (force split: if_splits)+

lemma setActive_none_interactive:
  assumes dist: "distinct (map fst (daemons m))" and inv: "onlyActiveInteractive m"
    and sa: "setActive m n = Inr (m', fx)"
  shows "interactiveNames m' = []" "activeDaemon m' = Some n"
    "distinct (map fst (daemons m'))" "map_of (daemons m') n \<noteq> None"
proof -
  from sa have reg: "map_of (daemons m) n \<noteq> None"
    by (auto simp: setActive_def split: if_splits)
  have ia: "\<And>n' d'. (n', d') \<in> set (daemons m) \<Longrightarrow> getState d' = Interactive
              \<Longrightarrow> activeDaemon m = Some n' \<and> truthy n' \<and> getActive m = Some d'"
    using inv dist by (fastforce simp: onlyActiveInteractive_iff getActive_def)
  show "activeDaemon m' = Some n"
    using sa by (auto simp: setActive_def Let_def split: if_splits option.splits prod.splits)
  have "set (interactiveNames m') = {} \<and> distinct (map fst (daemons m'))
          \<and> map_of (daemons m') n \<noteq> None"
  proof (cases "getActive m")
    case None
    with sa have m': "daemons m' = daemons m"
      by (auto simp: setActive_def Let_def split: if_splits)
    from None ia have "\<And>n' d'. (n', d') \<in> set (daemons m) \<Longrightarrow> getState d' \<noteq> Interactive"
      by fastforce
    with m' dist reg show ?thesis by (auto simp: interactiveNames_set)
  next
    case (Some p)
    show ?thesis
    proof (cases "getState p = Interactive")
      case False
      with Some sa have m': "daemons m' = daemons m"
        by (auto simp: setActive_def Let_def split: if_splits)
      from Some False ia have "\<And>n' d'. (n', d') \<in> set (daemons m) \<Longrightarrow> getState d' \<noteq> Interactive"
        by fastforce
      with m' dist reg show ?thesis by (auto simp: interactiveNames_set)
    next
      case True
      from Some obtain a where a: "activeDaemon m = Some a"
        by (auto simp: getActive_def split: option.splits)
      with Some True sa have m':
        "daemons m' = AList.update a (fst (exitInteractiveMode p)) (daemons m)"
        by (auto simp: setActive_def Let_def putDaemon_def split: if_splits prod.splits)
      have r: "getState (fst (exitInteractiveMode p)) = Ready"
        by (simp add: exitInteractiveMode_def getState_def Let_def)
      have "\<And>n' d'. (n', d') \<in> set (daemons m') \<Longrightarrow> getState d' \<noteq> Interactive"
      proof
        fix n' d' assume in': "(n', d') \<in> set (daemons m')" and i: "getState d' = Interactive"
        from in_update_cases [OF dist in' [unfolded m']] r i
        have "(n', d') \<in> set (daemons m)" "n' \<noteq> a" by auto
        with ia [OF this(1) i] a show False by simp
      qed
      moreover have "distinct (map fst (daemons m'))"
        using dist by (simp add: m' distinct_update)
      moreover have "map_of (daemons m') n \<noteq> None"
        using reg by (simp add: m' update_conv')
      ultimately show ?thesis by (auto simp: interactiveNames_set)
    qed
  qed
  then show "interactiveNames m' = []" and "distinct (map fst (daemons m'))"
    and "map_of (daemons m') n \<noteq> None" by blast+
qed

lemma enter_after_setActive:
  assumes none: "interactiveNames m = []" and dist: "distinct (map fst (daemons m))"
    and ev: "daemonEvent m n CallEnterInteractiveMode = Some (m', fx)"
  shows "set (interactiveNames m') \<subseteq> {n} \<and> length (interactiveNames m') \<le> 1"
proof -
  from ev obtain d d1 fx1 where g: "get m n = Some d"
    and s: "step d CallEnterInteractiveMode = Some (d1, fx1)"
    and m': "(m', fx) = deliver (putDaemon n d1 m) n fx1"
    by (auto simp: daemonEvent_def split: option.splits prod.splits)
  from m' have "m' = fst (deliver (putDaemon n d1 m) n fx1)" by (metis fst_conv)
  then have dm: "daemons m' = AList.update n d1 (daemons m)"
    by (simp add: deliver_daemons putDaemon_def)
  from none have ni: "\<And>n' d'. (n', d') \<in> set (daemons m) \<Longrightarrow> getState d' \<noteq> Interactive"
    using interactiveNames_set [of m] by auto
  have sub: "set (interactiveNames m') \<subseteq> {n}"
  proof
    fix x assume "x \<in> set (interactiveNames m')"
    then obtain d' where "(x, d') \<in> set (daemons m')" "getState d' = Interactive"
      by (auto simp: interactiveNames_set)
    with in_update_cases [OF dist, of x d' n d1] ni dm show "x \<in> {n}" by auto
  qed
  have "distinct (interactiveNames m')"
    using dist by (intro distinct_interactiveNames) (simp add: dm distinct_update)
  then have "length (interactiveNames m') = card (set (interactiveNames m'))"
    by (simp add: distinct_card)
  also have "\<dots> \<le> card {n}" using sub by (intro card_mono) simp_all
  finally show ?thesis using sub by simp
qed

lemma get_putDaemon: "get (putDaemon n d m) n = Some d"
  by (simp add: get_def putDaemon_def update_conv')




text \<open>
  A daemon that \<open>register\<close> has replaced goes on: the \<open>echo\<close> tool is registered a
  second time while \<open>startOne\<close> waits for the first daemon. When the five-second timer of
  the first daemon fires, \<open>startOne\<close> resolves and makes \<open>echo\<close> the active daemon,
  which by now is the second daemon, never started.
\<close>

lemma replaced_daemon_resolves_startOne:
  "map_option snd
     (managerRun newDaemonManager
       [Register echoConfig, StartOne (lit ''echo''), Register echoConfig,
        OnReplaced 0 (ReadyTimer 0)]) =
     Some [PtySpawn 0 (lit ''cat'') [], StartResolved 0, StartOneResolved (lit ''echo'')] \<and>
   activeDaemon (managerAfter
       [Register echoConfig, StartOne (lit ''echo''), Register echoConfig,
        OnReplaced 0 (ReadyTimer 0)]) = Some (lit ''echo'') \<and>
   get (managerAfter
       [Register echoConfig, StartOne (lit ''echo''), Register echoConfig,
        OnReplaced 0 (ReadyTimer 0)]) (lit ''echo'') = Some (newToolDaemon echoConfig)"
  by (simp add: managerAfter_def manager_defs daemon_defs lit_def)

text \<open>
  C6, as the code has it: \<open>setActive\<close> takes the active daemon out of Interactive,
  and no other. When every Interactive daemon is the active one, no daemon is Interactive
  after \<open>setActive(n)\<close>, and entering Interactive on \<open>n\<close> then leaves \<open>n\<close> the
  only Interactive daemon.
\<close>

theorem setActive_exits_active_interactive:
  assumes "distinct (map fst (daemons m))" "onlyActiveInteractive m"
    "setActive m n = Inr (m', fx)"
  shows "interactiveNames m' = [] \<and> activeDaemon m' = Some n \<and>
         (\<forall>m'' fx'. daemonEvent m' n CallEnterInteractiveMode = Some (m'', fx')
            \<longrightarrow> set (interactiveNames m'') \<subseteq> {n} \<and> length (interactiveNames m'') \<le> 1)"
  using setActive_none_interactive [OF assms] enter_after_setActive by blast

text \<open>C6 at the manager of two tools whose active daemon \<open>gemini\<close> is Interactive.\<close>

theorem setActive_exits_active_interactive_witness:
  "distinct (map fst (daemons (managerAfter
      [Register claudeConfig, Register geminiConfig, StartOne (lit ''claude''),
       OnDaemon (lit ''claude'') (ReadyTimer 0), StartOne (lit ''gemini''),
       OnDaemon (lit ''gemini'') (ReadyTimer 0),
       OnDaemon (lit ''gemini'') CallEnterInteractiveMode]))) \<and>
   onlyActiveInteractive (managerAfter
      [Register claudeConfig, Register geminiConfig, StartOne (lit ''claude''),
       OnDaemon (lit ''claude'') (ReadyTimer 0), StartOne (lit ''gemini''),
       OnDaemon (lit ''gemini'') (ReadyTimer 0),
       OnDaemon (lit ''gemini'') CallEnterInteractiveMode]) \<and>
   interactiveNames (managerAfter
      [Register claudeConfig, Register geminiConfig, StartOne (lit ''claude''),
       OnDaemon (lit ''claude'') (ReadyTimer 0), StartOne (lit ''gemini''),
       OnDaemon (lit ''gemini'') (ReadyTimer 0),
       OnDaemon (lit ''gemini'') CallEnterInteractiveMode]) = [lit ''gemini''] \<and>
   (\<exists>m' fx. setActive (managerAfter
      [Register claudeConfig, Register geminiConfig, StartOne (lit ''claude''),
       OnDaemon (lit ''claude'') (ReadyTimer 0), StartOne (lit ''gemini''),
       OnDaemon (lit ''gemini'') (ReadyTimer 0),
       OnDaemon (lit ''gemini'') CallEnterInteractiveMode]) (lit ''claude'') = Inr (m', fx) \<and>
      interactiveNames m' = [] \<and> activeDaemon m' = Some (lit ''claude''))"
proof -
  let ?m = "managerAfter
      [Register claudeConfig, Register geminiConfig, StartOne (lit ''claude''),
       OnDaemon (lit ''claude'') (ReadyTimer 0), StartOne (lit ''gemini''),
       OnDaemon (lit ''gemini'') (ReadyTimer 0),
       OnDaemon (lit ''gemini'') CallEnterInteractiveMode]"
  have h: "distinct (map fst (daemons ?m))" "onlyActiveInteractive ?m"
    and i: "interactiveNames ?m = [lit ''gemini'']"
    by (simp_all add: managerAfter_def manager_defs daemon_defs onlyActiveInteractive_def lit_def)
  obtain m' fx where sa: "setActive ?m (lit ''claude'') = Inr (m', fx)"
    by (simp add: managerAfter_def manager_defs daemon_defs lit_def)
  from setActive_exits_active_interactive [OF h sa] h i sa show ?thesis by blast
qed

text \<open>
  C6 as stated fails: \<open>enterInteractiveMode\<close> on the daemon \<open>claude\<close>, which is not
  the active one, is not undone by \<open>setActive('gemini')\<close>, and after
  \<open>enterInteractiveMode\<close> on \<open>gemini\<close> both daemons are Interactive.
\<close>

theorem two_interactive_counterexample:
  "interactiveNames (managerAfter
       [Register claudeConfig, Register geminiConfig, StartOne (lit ''claude''),
        OnDaemon (lit ''claude'') (ReadyTimer 0), StartOne (lit ''gemini''),
        OnDaemon (lit ''gemini'') (ReadyTimer 0),
        OnDaemon (lit ''claude'') CallEnterInteractiveMode, SetActive (lit ''gemini'')]) =
     [lit ''claude''] \<and>
   activeDaemon (managerAfter
       [Register claudeConfig, Register geminiConfig, StartOne (lit ''claude''),
        OnDaemon (lit ''claude'') (ReadyTimer 0), StartOne (lit ''gemini''),
        OnDaemon (lit ''gemini'') (ReadyTimer 0),
        OnDaemon (lit ''claude'') CallEnterInteractiveMode, SetActive (lit ''gemini'')]) =
     Some (lit ''gemini'') \<and>
   interactiveNames (managerAfter
       [Register claudeConfig, Register geminiConfig, StartOne (lit ''claude''),
        OnDaemon (lit ''claude'') (ReadyTimer 0), StartOne (lit ''gemini''),
        OnDaemon (lit ''gemini'') (ReadyTimer 0),
        OnDaemon (lit ''claude'') CallEnterInteractiveMode, SetActive (lit ''gemini''),
        OnDaemon (lit ''gemini'') CallEnterInteractiveMode]) =
     [lit ''claude'', lit ''gemini'']"
  by (simp add: managerAfter_def manager_defs daemon_defs lit_def)




subsection \<open>The sessions\<close>

lemmas session_defs =
  SessionManager_send_def forward_def SessionManager_getLastResponse_def addUserMessage_def
  addAssistantMessage_def orElse_def truthy_def sampleRegistry_def sampleSession_def
  sendToTool_def sendToClaude_def sendToGemini_def handleForward_def sampleSDKSession_def
  Let_def

lemma claude_neq_gemini: "lit ''claude'' \<noteq> lit ''gemini''" "lit ''gemini'' \<noteq> lit ''claude''"
  by (simp_all add: lit_def)

lemma handleForward_prompt:
  assumes "find (\<lambda>m. role m = Assistant) (rev (conversationHistory s)) = Some m"
  shows "\<exists>s' spawnArgs.
         handleForward s additionalMessage out =
           (s', Some (if tool m = lit ''claude'' then lit ''gemini'' else lit ''claude'', spawnArgs)) \<and>
         spawnArgs \<noteq> [] \<and>
         last spawnArgs =
           lit ''Another AI assistant ('' @
           (if tool m = lit ''claude'' then lit ''Claude Code'' else lit ''Gemini CLI'') @
           lit '') provided this response. Please review and share your thoughts:\<newline>\<newline>---\<newline>'' @
           content m @ lit ''\<newline>---'' @
           (if additionalMessage = [] then []
            else lit ''\<newline>\<newline>Additional context: '' @ additionalMessage)"
proof (cases "tool m = lit ''claude''")
  case True
  with assms show ?thesis
    by (simp add: handleForward_def sendToTool_def sendToGemini_def truthy_def
          claude_neq_gemini Let_def split: prod.splits sum.splits)
next
  case False
  with assms show ?thesis
    by (simp add: handleForward_def sendToTool_def sendToClaude_def truthy_def
          Let_def split: prod.splits sum.splits)
qed

lemma forward_prompt:
  assumes "SessionManager_getLastResponse sm (Some fromTool) = Some lm"
    "registry sm toTool = Some t" "isAvailable t" "toTool \<noteq> []" "a \<noteq> []"
  shows "fst (snd (forward sm fromTool toTool (Some a) None now1 now2 outcome)) =
        [(adapterName t,
          lit ''Another AI assistant ('' @
          orElse (map_option adapterDisplayName (registry sm fromTool)) fromTool @
          lit '') proposed the following. Please review and provide feedback:\<newline>\<newline>---\<newline>'' @
          content lm @ lit ''\<newline>---\<newline>\<newline>Additional context: '' @ a)]"
proof -
  have o: "orElse (Some toTool) (defaultTool sm) = toTool" "\<And>x. orElse None x = x"
    using assms(4) by (simp_all add: orElse_def truthy_def)
  show ?thesis
    using assms
    by (cases outcome) (simp_all add: forward_def SessionManager_send_def o truthy_def Let_def)
qed

text \<open>
  C9: when the send of the tool fails, the message log is the log before the send, in
  \<open>SessionManager.send\<close> (which throws the error again) and in
  \<open>SDKSession.sendToTool\<close> (which prints it).
\<close>

theorem failed_send_restores_log:
  "(case SessionManager_send sm prompt toolName now1 now2 (Inl e) of
      (sm', sent, res) \<Rightarrow> messages sm' = messages sm \<and> isl res) \<and>
   (procFails out \<longrightarrow>
      conversationHistory (fst (sendToTool s message out)) = conversationHistory s)"
  by (auto simp: SessionManager_send_def addUserMessage_def sendToTool_def sendToClaude_def
        sendToGemini_def procFails_def Let_def
        split: option.splits ProcOutcome.splits prod.splits sum.splits)

text \<open>C9 at the sample sessions, with a tool that cannot be spawned or exits with code 1.\<close>

theorem failed_send_restores_log_witness:
  "procFails (Closed (Some 1) [] (lit ''boom'')) \<and>
   (case SessionManager_send sampleSession (lit ''P'') None 3 4 (Inl (SpawnError (lit ''boom''))) of
      (sm', sent, res) \<Rightarrow> messages sm' = messages sampleSession \<and> isl res) \<and>
   conversationHistory (fst (sendToTool sampleSDKSession (lit ''P'') (Closed (Some 1) [] (lit ''boom''))))
     = conversationHistory sampleSDKSession"
proof -
  have h: "procFails (Closed (Some 1) [] (lit ''boom''))" by (simp add: procFails_def)
  from failed_send_restores_log [of sampleSession "lit ''P''" None 3 4 "SpawnError (lit ''boom'')"
      "Closed (Some 1) [] (lit ''boom'')" sampleSDKSession "lit ''P''"] h
  show ?thesis by simp
qed

text \<open>
  C1, as the code has it. \<open>SDKSession.handleForward\<close> hands the other tool, as the
  last argument of its command, exactly the envelope of the claim around the content of
  the last assistant message, with the additional context appended if and only if the
  additional message is not empty. \<open>SessionManager.forward\<close> has another envelope:
  with the default prefix and a non-empty additional prompt it sends the text below.
\<close>

theorem forward_envelope:
  "(find (\<lambda>m. role m = Assistant) (rev (conversationHistory s)) = Some m \<longrightarrow>
      (\<exists>s' spawnArgs.
         handleForward s additionalMessage out =
           (s', Some (if tool m = lit ''claude'' then lit ''gemini'' else lit ''claude'', spawnArgs)) \<and>
         spawnArgs \<noteq> [] \<and>
         last spawnArgs =
           lit ''Another AI assistant ('' @
           (if tool m = lit ''claude'' then lit ''Claude Code'' else lit ''Gemini CLI'') @
           lit '') provided this response. Please review and share your thoughts:\<newline>\<newline>---\<newline>'' @
           content m @ lit ''\<newline>---'' @
           (if additionalMessage = [] then []
            else lit ''\<newline>\<newline>Additional context: '' @ additionalMessage))) \<and>
   (SessionManager_getLastResponse sm (Some fromTool) = Some lm \<and>
    registry sm toTool = Some t \<and> isAvailable t \<and> toTool \<noteq> [] \<and> a \<noteq> [] \<longrightarrow>
      fst (snd (forward sm fromTool toTool (Some a) None now1 now2 outcome)) =
        [(adapterName t,
          lit ''Another AI assistant ('' @
          orElse (map_option adapterDisplayName (registry sm fromTool)) fromTool @
          lit '') proposed the following. Please review and provide feedback:\<newline>\<newline>---\<newline>'' @
          content lm @ lit ''\<newline>---\<newline>\<newline>Additional context: '' @ a)])"
  using handleForward_prompt [of s m additionalMessage out]
    forward_prompt [of sm fromTool lm toTool t a now1 now2 outcome]
  by blast

text \<open>
  C1 at the sample sessions: the last answer \<open>X\<close> of \<open>gemini\<close> is forwarded to
  \<open>claude\<close>, with the additional message \<open>why\<close>.
\<close>

theorem forward_envelope_witness:
  "find (\<lambda>m. role m = Assistant) (rev (conversationHistory sampleSDKSession)) =
     Some \<lparr> tool = lit ''gemini'', role = Assistant, content = lit ''X'' \<rparr> \<and>
   (\<exists>s' spawnArgs.
      handleForward sampleSDKSession (lit ''why'') (Closed (Some 0) (lit ''ok'') []) =
        (s', Some (lit ''claude'', spawnArgs)) \<and>
      last spawnArgs =
        lit ''Another AI assistant (Gemini CLI) provided this response. Please review and share your thoughts:\<newline>\<newline>---\<newline>X\<newline>---\<newline>\<newline>Additional context: why'') \<and>
   SessionManager_getLastResponse sampleSession (Some (lit ''gemini'')) =
     Some \<lparr> tool = lit ''gemini'', role = Assistant, content = lit ''X'', timestamp = 2 \<rparr> \<and>
   fst (snd (forward sampleSession (lit ''gemini'') (lit ''claude'') (Some (lit ''why'')) None 3 4
              (Inr (lit ''ok'')))) =
     [(lit ''claude'',
       lit ''Another AI assistant (Gemini CLI) proposed the following. Please review and provide feedback:\<newline>\<newline>---\<newline>X\<newline>---\<newline>\<newline>Additional context: why'')]"
proof -
  let ?m = "\<lparr> tool = lit ''gemini'', role = Assistant, content = lit ''X'' \<rparr>"
  let ?lm = "\<lparr> tool = lit ''gemini'', role = Assistant, content = lit ''X'', timestamp = 2 \<rparr>"
  let ?t = "\<lparr> adapterName = lit ''claude'', adapterDisplayName = lit ''Claude Code'',
              isAvailable = True \<rparr>"
  have h1: "find (\<lambda>m. role m = Assistant) (rev (conversationHistory sampleSDKSession)) = Some ?m"
    by (simp add: sampleSDKSession_def)
  have h2: "SessionManager_getLastResponse sampleSession (Some (lit ''gemini'')) = Some ?lm"
    by (simp add: SessionManager_getLastResponse_def sampleSession_def truthy_def lit_def)
  have h3: "registry sampleSession (lit ''claude'') = Some ?t" "isAvailable ?t"
    "lit ''claude'' \<noteq> []" "lit ''why'' \<noteq> []"
    and h4: "registry sampleSession (lit ''gemini'') =
      Some \<lparr> adapterName = lit ''gemini'', adapterDisplayName = lit ''Gemini CLI'',
             isAvailable = True \<rparr>"
    by (simp_all add: sampleSession_def sampleRegistry_def lit_def)
  from forward_envelope [of sampleSDKSession ?m "lit ''why''" "Closed (Some 0) (lit ''ok'') []"
      sampleSession "lit ''gemini''" ?lm "lit ''claude''" ?t "lit ''why''" 3 4 "Inr (lit ''ok'')"]
    h1 h2 h3 h4
  show ?thesis
    by (simp add: claude_neq_gemini orElse_def truthy_def lit_def) blast
qed

text \<open>
  C1 as stated fails for \<open>SessionManager.forward\<close>: without an additional prompt, the
  answer \<open>X\<close> of \<open>gemini\<close> reaches \<open>claude\<close> in an envelope with other words and
  with no closing line.
\<close>

theorem forward_envelope_counterexample:
  "fst (snd (forward sampleSession (lit ''gemini'') (lit ''claude'') None None 3 4 (Inr (lit ''ok'')))) =
     [(lit ''claude'',
       lit ''Another AI assistant (Gemini CLI) proposed the following. Please review and provide feedback:\<newline>\<newline>---\<newline>X'')] \<and>
   fst (snd (forward sampleSession (lit ''gemini'') (lit ''claude'') None None 3 4 (Inr (lit ''ok'')))) \<noteq>
     [(lit ''claude'',
       lit ''Another AI assistant (Gemini CLI) provided this response. Please review and share your thoughts:\<newline>\<newline>---\<newline>X\<newline>---'')]"
  by (simp add: session_defs lit_def)

subsection \<open>The sanitizers\<close>

text \<open>Evaluating the matcher on a given string, with the simplifier.\<close>

lemma starEnds_unfold:
  "starEnds f n i =
     (if n = 0 then [i]
      else concat (map (\<lambda>e. if i < e then starEnds f (n - 1) e else []) (f i)) @ [i])"
  by (cases n) (simp_all cong: if_cong)

lemmas regex_eval =
  chars_def charsCI_def chrCI_def chr_def optional_def oneOrMore_def whiteSpace_def digit_def
  wordChar_def anyChar_def spinnerFrames_def boxDrawing_def wsRanges_def inClass_def
  isLineTerminator_def replaceAll_def lastIndexOf_def
  keepLine_def regexTest_def matchesAt_def trim_def isWhiteSpace_def lit_def Let_def starEnds_unfold

lemmas gemini_eval =
  cleanResponse_def finalCleanup_def dropGarbageLines_def afterLastIndicator_def
  lastIndicatorEnd_def stripChrome_def chromePatterns_def streamingPatterns_def regex_eval

lemma no_ESC_no_match: "27 \<notin> set s \<Longrightarrow> \<not> hasStripAnsiMatch s"
proof -
  assume n: "27 \<notin> set s"
  have "ends ansiRe s j = []" if "j < length s" for j
  proof -
    from that n have "s ! j \<noteq> 27" by (metis nth_mem)
    then show ?thesis unfolding ansiRe_def by (simp only: ends_Seq_chr) simp
  qed
  then show ?thesis by (simp add: hasStripAnsiMatch_iff)
qed

lemma set_trim: "set (trim s) \<subseteq> set s"
proof -
  have "set (trim s) \<subseteq> set (dropWhile isWhiteSpace s)"
    unfolding trim_def using set_dropWhileD [of _ isWhiteSpace "rev (dropWhile isWhiteSpace s)"]
    by auto
  also have "\<dots> \<subseteq> set s" using set_dropWhileD by fastforce
  finally show ?thesis .
qed

lemma trim_idem: "trim (trim s) = trim s"
proof -
  let ?d = "dropWhile isWhiteSpace s"
  let ?e = "dropWhile isWhiteSpace (rev ?d)"
  have t: "trim s = rev ?e" by (simp add: trim_def)
  have 1: "dropWhile isWhiteSpace (rev ?e) = rev ?e"
  proof (rule dropWhile_id, cases "?e = []")
    case True
    then show "rev ?e = [] \<or> \<not> isWhiteSpace (hd (rev ?e))" by simp
  next
    case False
    then have "last ?e = last (rev ?d)" by (rule last_dropWhile)
    moreover have dn: "?d \<noteq> []"
    proof
      assume d: "?d = []"
      have "?e = []" unfolding d by simp
      with False show False by simp
    qed
    ultimately have "hd (rev ?e) = hd ?d" using False by (simp add: hd_rev last_rev)
    moreover have "\<not> isWhiteSpace (hd ?d)" using dn by (rule hd_dropWhile)
    ultimately show "rev ?e = [] \<or> \<not> isWhiteSpace (hd (rev ?e))" by simp
  qed
  show ?thesis
    unfolding t by (subst trim_def) (simp only: 1 rev_rev_ident dropWhile_idem)
qed

lemma stripAnsi_twice: "stripAnsi [27, 27, 65, 65] = [27, 65]" "stripAnsi [27, 65] = []"
  by code_simp+

lemma cleanResponse_marker_auto: "cleanResponse (10022 # lit '' auto'') = lit ''auto''"
  by (simp add: gemini_eval)

lemma cleanResponse_auto: "cleanResponse (lit ''auto'') = []"
  by (simp add: gemini_eval)

lemma not_hasStripAnsiMatch_hello: "\<not> hasStripAnsiMatch (lit ''hello'')" "\<not> hasStripAnsiMatch (lit ''hello'' @ [13, 10])"
  by code_simp+

text \<open>
  C8, as the code has it: \<open>stripAnsi\<close> returns a text without escape sequences
  unchanged, and stripping twice is stripping once exactly when the stripped text has no
  escape sequence left, as when it has no ESC; then the trimmed, stripped text is a fixed
  point of stripping and trimming. Of \<open>cleanResponse\<close> it holds for every input that
  its result is trimmed.
\<close>

theorem sanitizer_fixed_points:
  "(\<not> hasStripAnsiMatch s \<longrightarrow> stripAnsi s = s) \<and>
   (stripAnsi (stripAnsi s) = stripAnsi s \<longleftrightarrow> \<not> hasStripAnsiMatch (stripAnsi s)) \<and>
   (27 \<notin> set (stripAnsi s) \<longrightarrow>
      trim (stripAnsi (trim (stripAnsi s))) = trim (stripAnsi s)) \<and>
   trim (cleanResponse s) = cleanResponse s"
proof (intro conjI impI)
  assume "\<not> hasStripAnsiMatch s"
  then show "stripAnsi s = s" by (rule stripAnsi_clean)
next
  show "stripAnsi (stripAnsi s) = stripAnsi s \<longleftrightarrow> \<not> hasStripAnsiMatch (stripAnsi s)"
  proof
    assume eq: "stripAnsi (stripAnsi s) = stripAnsi s"
    show "\<not> hasStripAnsiMatch (stripAnsi s)"
    proof
      assume "hasStripAnsiMatch (stripAnsi s)"
      then have "length (stripAnsi (stripAnsi s)) < length (stripAnsi s)"
        by (rule stripAnsi_shorter)
      with eq show False by simp
    qed
  next
    assume "\<not> hasStripAnsiMatch (stripAnsi s)"
    then show "stripAnsi (stripAnsi s) = stripAnsi s" by (rule stripAnsi_clean)
  qed
next
  assume "27 \<notin> set (stripAnsi s)"
  with set_trim [of "stripAnsi s"] have "27 \<notin> set (trim (stripAnsi s))" by blast
  then have "stripAnsi (trim (stripAnsi s)) = trim (stripAnsi s)"
    by (intro stripAnsi_clean no_ESC_no_match)
  then show "trim (stripAnsi (trim (stripAnsi s))) = trim (stripAnsi s)"
    by (simp add: trim_idem)
next
  show "trim (cleanResponse s) = cleanResponse s"
    by (simp add: cleanResponse_def finalCleanup_def trim_idem)
qed

text \<open>C8 at \<open>hello\<close>, plain and in green.\<close>

theorem sanitizer_fixed_points_witness:
  "\<not> hasStripAnsiMatch (lit ''hello'') \<and> stripAnsi (lit ''hello'') = lit ''hello'' \<and>
   \<not> hasStripAnsiMatch (stripAnsi colouredHello) \<and>
   stripAnsi (stripAnsi colouredHello) = stripAnsi colouredHello \<and>
   27 \<notin> set (stripAnsi colouredHello) \<and>
   trim (stripAnsi (trim (stripAnsi colouredHello))) = trim (stripAnsi colouredHello)"
proof -
  have h: "\<not> hasStripAnsiMatch (stripAnsi colouredHello)" "27 \<notin> set (stripAnsi colouredHello)"
    by (simp_all add: stripAnsi_colouredHello not_hasStripAnsiMatch_hello) (simp add: lit_def)
  from sanitizer_fixed_points [of "lit ''hello''"] sanitizer_fixed_points [of colouredHello]
    h not_hasStripAnsiMatch_hello(1)
  show ?thesis by blast
qed

text \<open>
  C8 as stated fails for both sanitizers. Stripping ESC ESC A A cuts out the second ESC
  with the first A, and what is left is an escape sequence. The answer \<open>auto\<close> behind
  the marker U+2726 is cleaned to \<open>auto\<close>, and \<open>auto\<close> alone is a line of the
  Gemini interface, cleaned to the empty string.
\<close>

theorem sanitizers_not_idempotent_counterexample:
  "stripAnsi (stripAnsi [27, 27, 65, 65]) \<noteq> stripAnsi [27, 27, 65, 65] \<and>
   cleanResponse (cleanResponse (10022 # lit '' auto'')) \<noteq> cleanResponse (10022 # lit '' auto'')"
  by (simp add: stripAnsi_twice cleanResponse_marker_auto cleanResponse_auto) (simp add: lit_def)

end
